theory Spec2Isabelle
  imports Complex_Main
begin

section \<open>MEETA DRIVE: address codec, formula evaluator, cell store, persistence\<close>

text \<open>
  A shallow embedding of \<^verbatim>\<open>meeta_drive.py\<close>. Python strings are modelled as
  \<^typ>\<open>string\<close>, a character standing for a code point from 0 to 255: the regular
  expression classes and \<^verbatim>\<open>str.strip\<close> are modelled on all of these code points.
  Python integers are \<^typ>\<open>int\<close>.
  Python floats are a type parameter \<open>'f\<close> whose operations are passed in a record, so
  every theorem holds for any float arithmetic, rounding included.
\<close>

subsection \<open>Python built-ins used by the source\<close>

definition is_upper :: "char \<Rightarrow> bool" where
  \<comment> \<open>the character class \<^verbatim>\<open>[A-Z]\<close>\<close>
  "is_upper c = (let n = (of_char c :: nat) in 65 \<le> n \<and> n \<le> 90)"

definition is_digit :: "char \<Rightarrow> bool" where
  \<comment> \<open>the character class \<^verbatim>\<open>\d\<close>: below 256 the decimal digits are 0 to 9 only\<close>
  "is_digit c = (let n = (of_char c :: nat) in 48 \<le> n \<and> n \<le> 57)"

definition is_space :: "char \<Rightarrow> bool" where
  \<comment> \<open>\<^verbatim>\<open>str.isspace\<close>, the white space that \<^verbatim>\<open>strip\<close> removes: tab, LF, VT, FF, CR, FS,
      GS, RS, US, blank, and the code points 133 (next line) and 160 (no-break space)\<close>
  "is_space c =
     (let n = (of_char c :: nat)
      in (9 \<le> n \<and> n \<le> 13) \<or> (28 \<le> n \<and> n \<le> 32) \<or> n = 133 \<or> n = 160)"

definition strip :: "string \<Rightarrow> string" where
  \<comment> \<open>\<^verbatim>\<open>s.strip()\<close>\<close>
  "strip s = rev (dropWhile is_space (rev (dropWhile is_space s)))"

definition startswith :: "string \<Rightarrow> string \<Rightarrow> bool" where
  \<comment> \<open>\<^verbatim>\<open>s.startswith(p)\<close>\<close>
  "startswith s p = (take (length p) s = p)"

definition endswith :: "string \<Rightarrow> string \<Rightarrow> bool" where
  \<comment> \<open>\<^verbatim>\<open>s.endswith(p)\<close>\<close>
  "endswith s p = (length p \<le> length s \<and> drop (length s - length p) s = p)"

fun split_on :: "char \<Rightarrow> string \<Rightarrow> string list" where
  \<comment> \<open>\<^verbatim>\<open>s.split(c)\<close> for a one-character separator: never the empty list\<close>
  "split_on c [] = [[]]"
| "split_on c (x # xs) =
     (if x = c then [] # split_on c xs
      else (case split_on c xs of
              [] \<Rightarrow> [[x]]
            | p # ps \<Rightarrow> (x # p) # ps))"

definition digit_char :: "nat \<Rightarrow> char" where
  "digit_char d = char_of (48 + d)"

function str_nat :: "nat \<Rightarrow> string" where
  \<comment> \<open>the decimal rendering of a non-negative integer\<close>
  "str_nat n = (if n < 10 then [digit_char n] else str_nat (n div 10) @ [digit_char (n mod 10)])"
  by pat_completeness auto
termination
  by (relation "measure (\<lambda>n. n)") auto

declare str_nat.simps [simp del]

definition str_int :: "int \<Rightarrow> string" where
  \<comment> \<open>\<^verbatim>\<open>str(i)\<close>, which is what the f-string \<^verbatim>\<open>f"{i}"\<close> renders\<close>
  "str_int i = (if i < 0 then CHR ''-'' # str_nat (nat (- i)) else str_nat (nat i))"

definition int_of_digits :: "string \<Rightarrow> int" where
  \<comment> \<open>\<^verbatim>\<open>int(s)\<close> on a string of digits, as the regular expression delivers it;
      the interpreter's limit on the number of digits is not modelled\<close>
  "int_of_digits s = foldl (\<lambda>acc c. acc * 10 + (of_char c - 48)) 0 s"

subsection \<open>Address codec\<close>

function index_to_column_loop :: "int \<Rightarrow> string \<Rightarrow> string" where
  \<comment> \<open>the \<^verbatim>\<open>while True\<close> loop of \<^verbatim>\<open>index_to_column\<close>, on (index, result)\<close>
  "index_to_column_loop index result =
     (if index \<ge> 0 then
        (let remainder = index mod 26;
             result' = char_of (65 + remainder) # result;
             index' = index div 26 - 1
         in if index' < 0 then result' else index_to_column_loop index' result')
      else result)"
  by pat_completeness auto
termination
  by (relation "measure (\<lambda>(index, result). nat index)") auto

declare index_to_column_loop.simps [simp del]

definition index_to_column :: "int \<Rightarrow> string" where
  "index_to_column index = index_to_column_loop index []"

definition column_to_index :: "string \<Rightarrow> int" where
  "column_to_index column = foldl (\<lambda>result c. result * 26 + (of_char c - 64)) 0 column - 1"

definition cell_ref_to_indices :: "string \<Rightarrow> (int \<times> int) option" where
  \<comment> \<open>\<^verbatim>\<open>re.match(r"([A-Z]+)(\d+)", cell_ref)\<close>: anchored at the start only. Both groups
      are greedy, and giving back letters cannot help the digits to match, so the groups are
      the longest run of letters and the longest run of digits after it. The result is the
      pair (rowIndex, colIndex); \<open>None\<close> is the source's \<^verbatim>\<open>return None\<close>.\<close>
  "cell_ref_to_indices cell_ref =
     (let column = takeWhile is_upper cell_ref;
          digits = takeWhile is_digit (dropWhile is_upper cell_ref)
      in if column = [] \<or> digits = [] then None
         else Some (int_of_digits digits - 1, column_to_index column))"

definition indices_to_cell_ref :: "int \<Rightarrow> int \<Rightarrow> string" where
  "indices_to_cell_ref row_index col_index = index_to_column col_index @ str_int (row_index + 1)"

subsection \<open>Values, cells and sheets\<close>

datatype py_error = ValueError | IndexError

text \<open>
  The float operations the source uses: \<^verbatim>\<open>float(s)\<close> on a string (\<open>None\<close> is its
  \<^verbatim>\<open>ValueError\<close>), the conversion of an integer, \<^verbatim>\<open>+\<close>, \<^verbatim>\<open>/\<close>, and the built-in
  \<^verbatim>\<open>sum\<close> on a non-empty list of floats (which need not be a left fold of \<^verbatim>\<open>+\<close>).
\<close>

record 'f float_ops =
  float_of_str :: "string \<Rightarrow> 'f option"
  float_of_int :: "int \<Rightarrow> 'f"
  float_add :: "'f \<Rightarrow> 'f \<Rightarrow> 'f"
  float_div :: "'f \<Rightarrow> 'f \<Rightarrow> 'f"
  float_sum :: "'f list \<Rightarrow> 'f"

datatype 'f pynum = PyInt int | PyFloat 'f

datatype 'f result = Number "'f pynum" | Text string

datatype pyval = PyNone | PyStr string

text \<open>
  A cell is a dictionary with the keys \<^verbatim>\<open>value\<close>, \<^verbatim>\<open>formula\<close> and \<^verbatim>\<open>cachedValue\<close>, each
  of which may be missing (\<open>None\<close> here). The first two hold \<^verbatim>\<open>None\<close> or a string, which is
  what every caller of \<^verbatim>\<open>update_cell\<close> stores; the third holds what \<^verbatim>\<open>parse_formula\<close>
  returned. A sheet's \<^verbatim>\<open>cells\<close> dictionary is an association list in insertion order, the
  order in which \<^verbatim>\<open>items()\<close> runs through it.
\<close>

record 'f cell =
  cell_value :: "pyval option"
  cell_formula :: "pyval option"
  cachedValue :: "'f result option"

record 'f sheet =
  sheet_id :: string
  sheet_name :: string
  cells :: "(string \<times> 'f cell) list"

definition get_truthy :: "pyval option \<Rightarrow> string option" where
  \<comment> \<open>\<^verbatim>\<open>d.get(k)\<close> used as a condition: the string when it is there and not empty\<close>
  "get_truthy v = (case v of Some (PyStr s) \<Rightarrow> (if s = [] then None else Some s) | _ \<Rightarrow> None)"

definition to_float :: "'f float_ops \<Rightarrow> 'f pynum \<Rightarrow> 'f" where
  "to_float ops n = (case n of PyInt i \<Rightarrow> float_of_int ops i | PyFloat x \<Rightarrow> x)"

definition num_add :: "'f float_ops \<Rightarrow> 'f pynum \<Rightarrow> 'f \<Rightarrow> 'f pynum" where
  \<comment> \<open>\<^verbatim>\<open>sum_value += x\<close> for a float \<open>x\<close>: the accumulator is the integer 0 or a float\<close>
  "num_add ops acc x = PyFloat (float_add ops (to_float ops acc) x)"

subsection \<open>Formula evaluator\<close>

definition sum_step :: "'f float_ops \<Rightarrow> 'f sheet \<Rightarrow> 'f pynum \<Rightarrow> string \<Rightarrow> 'f pynum" where
  \<comment> \<open>the body of the SUM loops: the guard, then \<^verbatim>\<open>try: sum_value += float(...)\<close>\<close>
  "sum_step ops sheet sum_value cell_ref =
     (case map_of (cells sheet) cell_ref of
        None \<Rightarrow> sum_value
      | Some c \<Rightarrow>
          (case get_truthy (cell_value c) of
             None \<Rightarrow> sum_value
           | Some s \<Rightarrow>
               (case float_of_str ops s of
                  None \<Rightarrow> sum_value
                | Some x \<Rightarrow> num_add ops sum_value x)))"

definition average_step :: "'f float_ops \<Rightarrow> 'f sheet \<Rightarrow> 'f list \<Rightarrow> string \<Rightarrow> 'f list" where
  \<comment> \<open>the body of the AVERAGE loop: the guard, then \<^verbatim>\<open>try: values.append(float(...))\<close>\<close>
  "average_step ops sheet values cell_ref =
     (case map_of (cells sheet) cell_ref of
        None \<Rightarrow> values
      | Some c \<Rightarrow>
          (case get_truthy (cell_value c) of
             None \<Rightarrow> values
           | Some s \<Rightarrow>
               (case float_of_str ops s of
                  None \<Rightarrow> values
                | Some x \<Rightarrow> values @ [x])))"

definition sum_range :: "'f float_ops \<Rightarrow> 'f sheet \<Rightarrow> int \<times> int \<Rightarrow> int \<times> int \<Rightarrow> 'f pynum" where
  \<comment> \<open>the nested loops of \<^verbatim>\<open>SUM(a:b)\<close> over the normalised rectangle\<close>
  "sum_range ops sheet start_indices end_indices =
     (let min_row = min (fst start_indices) (fst end_indices);
          max_row = max (fst start_indices) (fst end_indices);
          min_col = min (snd start_indices) (snd end_indices);
          max_col = max (snd start_indices) (snd end_indices)
      in foldl (\<lambda>sum_value row.
                  foldl (\<lambda>sum_value col. sum_step ops sheet sum_value (indices_to_cell_ref row col))
                    sum_value [min_col..max_col])
           (PyInt 0) [min_row..max_row])"

definition average_range :: "'f float_ops \<Rightarrow> 'f sheet \<Rightarrow> int \<times> int \<Rightarrow> int \<times> int \<Rightarrow> 'f pynum" where
  \<comment> \<open>the nested loops of \<^verbatim>\<open>AVERAGE(a:b)\<close> and the division that follows them\<close>
  "average_range ops sheet start_indices end_indices =
     (let min_row = min (fst start_indices) (fst end_indices);
          max_row = max (fst start_indices) (fst end_indices);
          min_col = min (snd start_indices) (snd end_indices);
          max_col = max (snd start_indices) (snd end_indices);
          values = foldl (\<lambda>values row.
                      foldl (\<lambda>values col. average_step ops sheet values (indices_to_cell_ref row col))
                        values [min_col..max_col])
                     [] [min_row..max_row]
      in if values \<noteq> []
         then PyFloat (float_div ops (float_sum ops values) (float_of_int ops (int (length values))))
         else PyInt 0)"

definition parse_average :: "'f float_ops \<Rightarrow> string \<Rightarrow> 'f sheet \<Rightarrow> py_error + 'f result" where
  \<comment> \<open>\<^verbatim>\<open>parse_formula\<close> from its second \<^verbatim>\<open>if\<close> on: the AVERAGE block and the final
      \<^verbatim>\<open>return formula_text\<close>. Unpacking \<^verbatim>\<open>split(":")\<close> into two names raises
      \<^verbatim>\<open>ValueError\<close> unless there are exactly two parts.\<close>
  "parse_average ops formula_text sheet =
     (if startswith formula_text ''AVERAGE('' \<and> endswith formula_text '')'' then
        (let range_text = butlast (drop 8 formula_text) in
         if CHR '':'' \<in> set range_text then
           (case split_on CHR '':'' range_text of
              [start_ref, end_ref] \<Rightarrow>
                (case (cell_ref_to_indices start_ref, cell_ref_to_indices end_ref) of
                   (Some start_indices, Some end_indices) \<Rightarrow>
                     Inr (Number (average_range ops sheet start_indices end_indices))
                 | _ \<Rightarrow> Inr (Text formula_text))
            | _ \<Rightarrow> Inl ValueError)
         else Inr (Text formula_text))
      else Inr (Text formula_text))"

definition parse_formula :: "'f float_ops \<Rightarrow> string \<Rightarrow> 'f sheet \<Rightarrow> py_error + 'f result" where
  \<comment> \<open>\<open>Inl\<close> is an exception that leaves the function; the slice \<^verbatim>\<open>[4:-1]\<close> is
      \<open>butlast (drop 4 _)\<close>. A SUM block that does not return falls through to the rest.\<close>
  "parse_formula ops formula sheet =
     (let formula_text = (if startswith formula ''='' then strip (drop 1 formula) else strip formula) in
      if startswith formula_text ''SUM('' \<and> endswith formula_text '')'' then
        (let range_text = butlast (drop 4 formula_text) in
         if CHR '':'' \<in> set range_text then
           (case split_on CHR '':'' range_text of
              [start_ref, end_ref] \<Rightarrow>
                (case (cell_ref_to_indices start_ref, cell_ref_to_indices end_ref) of
                   (Some start_indices, Some end_indices) \<Rightarrow>
                     Inr (Number (sum_range ops sheet start_indices end_indices))
                 | _ \<Rightarrow> parse_average ops formula_text sheet)
            | _ \<Rightarrow> Inl ValueError)
         else
           Inr (Number (foldl (sum_step ops sheet) (PyInt 0)
                          (map strip (split_on CHR '','' range_text)))))
      else parse_average ops formula_text sheet)"

fun evaluate_cells ::
  "'f float_ops \<Rightarrow> 'f sheet \<Rightarrow> (string \<times> 'f cell) list \<Rightarrow> (string \<times> 'f cell) list
     \<Rightarrow> (string \<times> 'f cell) list \<times> py_error option" where
  \<comment> \<open>the loop of \<^verbatim>\<open>evaluate_worksheet_formulas\<close>: the items already visited, the items to
      come; each formula is evaluated against the worksheet as mutated so far. The result is
      the dictionary when the loop ends and the exception that ended it, if any.\<close>
  "evaluate_cells ops worksheet visited [] = (visited, None)"
| "evaluate_cells ops worksheet visited ((cell_ref, cell_data) # rest) =
     (case get_truthy (cell_formula cell_data) of
        None \<Rightarrow> evaluate_cells ops worksheet (visited @ [(cell_ref, cell_data)]) rest
      | Some formula \<Rightarrow>
          (case parse_formula ops formula
                  (worksheet\<lparr>cells := visited @ (cell_ref, cell_data) # rest\<rparr>) of
             Inl e \<Rightarrow> (visited @ (cell_ref, cell_data) # rest, Some e)
           | Inr v \<Rightarrow>
               evaluate_cells ops worksheet
                 (visited @ [(cell_ref, cell_data\<lparr>cachedValue := Some v\<rparr>)]) rest))"

definition evaluate_worksheet_formulas :: "'f float_ops \<Rightarrow> 'f sheet \<Rightarrow> 'f sheet \<times> py_error option" where
  \<comment> \<open>the worksheet after the pass, which mutates it in place, and the exception if one was
      raised\<close>
  "evaluate_worksheet_formulas ops worksheet =
     (case evaluate_cells ops worksheet [] (cells worksheet) of
        (cs, err) \<Rightarrow> (worksheet\<lparr>cells := cs\<rparr>, err))"

subsection \<open>Session state and cell store\<close>

text \<open>
  \<^verbatim>\<open>st.session_state\<close> as a record. Once a file is saved or loaded,
  \<^verbatim>\<open>current_file['data']\<close> is the very object \<^verbatim>\<open>spreadsheet_data\<close>, so
  \<open>current_file\<close> keeps the other entries of the file record only.
\<close>

record 'f spreadsheet =
  activeSheet :: string
  sheets :: "'f sheet list"

record file_info =
  file_id :: string
  file_name :: string
  updatedAt :: string
  createdAt :: string
  userId :: int

record 'f session_state =
  spreadsheet_data :: "'f spreadsheet"
  current_file :: "file_info option"
  is_modified :: bool
  formula_value :: string
  active_cell :: "string option"

text \<open>The \<^verbatim>\<open>data\<close> argument of \<^verbatim>\<open>update_cell\<close>: \<open>Some v\<close> for a key it holds.\<close>

record 'f cell_update =
  upd_value :: "pyval option"
  upd_formula :: "pyval option"
  upd_cachedValue :: "'f result option"

definition empty_sheet :: "string \<Rightarrow> string \<Rightarrow> 'f sheet" where
  "empty_sheet i n = \<lparr>sheet_id = i, sheet_name = n, cells = []\<rparr>"

definition initial_state :: "'f session_state" where
  \<comment> \<open>the session state set up when the script first runs\<close>
  "initial_state =
     \<lparr>spreadsheet_data =
        \<lparr>activeSheet = ''sheet1'',
         sheets = [\<lparr>sheet_id = ''sheet1'', sheet_name = ''Sheet1'', cells = []\<rparr>]\<rparr>,
      current_file = None, is_modified = False, formula_value = [], active_cell = None\<rparr>"

definition merge_cell :: "'f cell_update \<Rightarrow> 'f cell \<Rightarrow> 'f cell" where
  \<comment> \<open>\<^verbatim>\<open>for key, value in data.items(): cell[key] = value\<close>\<close>
  "merge_cell data c =
     \<lparr>cell_value = (case upd_value data of None \<Rightarrow> cell_value c | Some v \<Rightarrow> Some v),
      cell_formula = (case upd_formula data of None \<Rightarrow> cell_formula c | Some v \<Rightarrow> Some v),
      cachedValue = (case upd_cachedValue data of None \<Rightarrow> cachedValue c | Some v \<Rightarrow> Some v)\<rparr>"

fun dict_update :: "string \<Rightarrow> ('f cell \<Rightarrow> 'f cell) \<Rightarrow> (string \<times> 'f cell) list \<Rightarrow> (string \<times> 'f cell) list" where
  \<comment> \<open>change the entry of a key that the dictionary holds, in place\<close>
  "dict_update k f [] = []"
| "dict_update k f ((k', c) # kvs) = (if k' = k then (k', f c) # kvs else (k', c) # dict_update k f kvs)"

definition store_cell :: "string \<Rightarrow> 'f cell_update \<Rightarrow> 'f sheet \<Rightarrow> 'f sheet" where
  \<comment> \<open>the two writes of \<^verbatim>\<open>update_cell\<close> to \<^verbatim>\<open>sheet['cells']\<close>: a new key goes last\<close>
  "store_cell cell_ref data sheet =
     (let cs = (if map_of (cells sheet) cell_ref = None
                then cells sheet @ [(cell_ref, \<lparr>cell_value = None, cell_formula = None, cachedValue = None\<rparr>)]
                else cells sheet)
      in sheet\<lparr>cells := dict_update cell_ref (merge_cell data) cs\<rparr>)"

fun update_first :: "string \<Rightarrow> ('f sheet \<Rightarrow> 'f sheet) \<Rightarrow> 'f sheet list \<Rightarrow> 'f sheet list" where
  \<comment> \<open>mutate the first sheet with the given id, the one \<^verbatim>\<open>next(...)\<close> finds\<close>
  "update_first i f [] = []"
| "update_first i f (s # ss) = (if sheet_id s = i then f s # ss else s # update_first i f ss)"

definition update_cell ::
  "'f float_ops \<Rightarrow> string \<Rightarrow> string \<Rightarrow> 'f cell_update \<Rightarrow> 'f session_state
     \<Rightarrow> 'f session_state \<times> py_error option" where
  \<comment> \<open>the state \<^verbatim>\<open>update_cell\<close> leaves and the exception that left it, if any\<close>
  "update_cell ops sid cell_ref data st =
     (case find (\<lambda>s. sheet_id s = sid) (sheets (spreadsheet_data st)) of
        None \<Rightarrow> (st, None)
      | Some sheet \<Rightarrow>
          (let sheet1 = store_cell cell_ref data sheet;
               reevaluate = (upd_formula data \<noteq> None \<or> upd_value data \<noteq> None);
               (sheet2, err) = (if reevaluate then evaluate_worksheet_formulas ops sheet1
                                else (sheet1, None));
               d = spreadsheet_data st
           in (st\<lparr>spreadsheet_data := d\<lparr>sheets := update_first sid (\<lambda>_. sheet2) (sheets d)\<rparr>,
                   is_modified := True\<rparr>, err)))"

definition new_spreadsheet :: "'f session_state \<Rightarrow> 'f session_state" where
  "new_spreadsheet st =
     st\<lparr>spreadsheet_data := \<lparr>activeSheet = ''sheet1'', sheets = [empty_sheet ''sheet1'' ''Sheet1'']\<rparr>,
        current_file := None, is_modified := False, active_cell := None, formula_value := []\<rparr>"

definition add_sheet :: "'f session_state \<Rightarrow> 'f session_state" where
  "add_sheet st =
     (let d = spreadsheet_data st;
          n = str_int (int (length (sheets d)) + 1);
          new_sheet = empty_sheet (''sheet'' @ n) (''Sheet'' @ n)
      in st\<lparr>spreadsheet_data := \<lparr>activeSheet = ''sheet'' @ n, sheets = sheets d @ [new_sheet]\<rparr>,
            is_modified := True\<rparr>)"

definition remove_sheet :: "string \<Rightarrow> 'f session_state \<Rightarrow> 'f session_state \<times> py_error option" where
  \<comment> \<open>\<^verbatim>\<open>sheets[0]\<close> raises \<^verbatim>\<open>IndexError\<close> on the empty list, after the list was stored\<close>
  "remove_sheet sid st =
     (let d = spreadsheet_data st in
      if length (sheets d) \<le> 1 then (st, None)
      else
        (let kept = filter (\<lambda>s. sheet_id s \<noteq> sid) (sheets d);
             d1 = d\<lparr>sheets := kept\<rparr>
         in if activeSheet d1 = sid then
              (case kept of
                 [] \<Rightarrow> (st\<lparr>spreadsheet_data := d1\<rparr>, Some IndexError)
               | s # _ \<Rightarrow> (st\<lparr>spreadsheet_data := d1\<lparr>activeSheet := sheet_id s\<rparr>, is_modified := True\<rparr>, None))
            else (st\<lparr>spreadsheet_data := d1, is_modified := True\<rparr>, None)))"

definition rename_sheet :: "string \<Rightarrow> string \<Rightarrow> 'f session_state \<Rightarrow> 'f session_state" where
  "rename_sheet sid new_name st =
     (let d = spreadsheet_data st in
      if \<exists>s \<in> set (sheets d). sheet_id s = sid
      then st\<lparr>spreadsheet_data := d\<lparr>sheets := update_first sid (\<lambda>s. s\<lparr>sheet_name := new_name\<rparr>) (sheets d)\<rparr>,
              is_modified := True\<rparr>
      else st)"

definition set_active_sheet :: "string \<Rightarrow> 'f session_state \<Rightarrow> 'f session_state" where
  "set_active_sheet sid st = st\<lparr>spreadsheet_data := (spreadsheet_data st)\<lparr>activeSheet := sid\<rparr>\<rparr>"

subsection \<open>Persistence\<close>

text \<open>
  The file system is outside the model. \<^verbatim>\<open>save_spreadsheet\<close> is given the fresh
  \<^verbatim>\<open>uuid4\<close>, the time stamp, and whether \<^verbatim>\<open>open\<close> and \<^verbatim>\<open>json.dump\<close> went through;
  \<^verbatim>\<open>load_spreadsheet\<close> is given what \<^verbatim>\<open>open\<close> and \<^verbatim>\<open>json.load\<close> delivered, \<open>None\<close> when
  either raised. Both return the boolean the source returns and the state they leave.
\<close>

record 'f file_data =
  info :: file_info
  data :: "'f spreadsheet"

definition save_spreadsheet ::
  "string option \<Rightarrow> string \<Rightarrow> string \<Rightarrow> bool \<Rightarrow> 'f session_state \<Rightarrow> bool \<times> 'f session_state" where
  "save_spreadsheet name fresh_uuid now write_ok st =
     (let has_name = (case name of None \<Rightarrow> False | Some n \<Rightarrow> n \<noteq> []) in
      if \<not> has_name \<and> current_file st = None then (False, st)
      else
        (let filename = (case name of
                           Some n \<Rightarrow> (if n \<noteq> [] then n else (case current_file st of Some cf \<Rightarrow> file_name cf | None \<Rightarrow> n))
                         | None \<Rightarrow> (case current_file st of Some cf \<Rightarrow> file_name cf | None \<Rightarrow> []));
             fid = (case current_file st of None \<Rightarrow> fresh_uuid | Some cf \<Rightarrow> file_id cf);
             created = (case current_file st of None \<Rightarrow> now | Some cf \<Rightarrow> createdAt cf);
             fd = \<lparr>file_id = fid, file_name = filename, updatedAt = now, createdAt = created, userId = 1\<rparr>
         in if write_ok then (True, st\<lparr>current_file := Some fd, is_modified := False\<rparr>)
            else (False, st)))"

fun evaluate_sheets ::
  "'f float_ops \<Rightarrow> 'f sheet list \<Rightarrow> 'f sheet list \<Rightarrow> 'f sheet list \<times> py_error option" where
  \<comment> \<open>the loop of \<^verbatim>\<open>load_spreadsheet\<close> over the sheets, stopped by the first exception\<close>
  "evaluate_sheets ops visited [] = (visited, None)"
| "evaluate_sheets ops visited (sheet # rest) =
     (case evaluate_worksheet_formulas ops sheet of
        (sheet', Some e) \<Rightarrow> (visited @ sheet' # rest, Some e)
      | (sheet', None) \<Rightarrow> evaluate_sheets ops (visited @ [sheet']) rest)"

definition load_spreadsheet ::
  "'f float_ops \<Rightarrow> 'f file_data option \<Rightarrow> 'f session_state \<Rightarrow> bool \<times> 'f session_state" where
  "load_spreadsheet ops read_result st =
     (case read_result of
        None \<Rightarrow> (False, st)
      | Some fd \<Rightarrow>
          (let st1 = st\<lparr>spreadsheet_data := data fd, current_file := Some (info fd), is_modified := False\<rparr>
           in case evaluate_sheets ops [] (sheets (data fd)) of
                (ss, err) \<Rightarrow>
                  (err = None, st1\<lparr>spreadsheet_data := (data fd)\<lparr>sheets := ss\<rparr>\<rparr>)))"

subsection \<open>Notions of the specification\<close>

definition is_reference :: "string \<Rightarrow> bool" where
  \<comment> \<open>the whole string is one or more uppercase letters followed by one or more digits\<close>
  "is_reference s =
     (let letters = takeWhile is_upper s; rest = dropWhile is_upper s
      in letters \<noteq> [] \<and> rest \<noteq> [] \<and> list_all is_digit rest)"

fun join_commas :: "string list \<Rightarrow> string" where
  \<comment> \<open>the comma list written out of its items\<close>
  "join_commas [] = []"
| "join_commas [r] = r"
| "join_commas (r # rs) = r @ CHR '','' # join_commas rs"

definition numeric_content :: "'f float_ops \<Rightarrow> 'f sheet \<Rightarrow> string \<Rightarrow> 'f option" where
  \<comment> \<open>what a visited reference contributes: nothing when the cell is absent, when its value
      is missing or empty, or when the value does not read as a float\<close>
  "numeric_content ops sheet r =
     (case map_of (cells sheet) r of
        None \<Rightarrow> None
      | Some c \<Rightarrow>
          (case cell_value c of
             Some (PyStr s) \<Rightarrow> (if s = [] then None else float_of_str ops s)
           | _ \<Rightarrow> None))"

definition rectangle_refs :: "int \<times> int \<Rightarrow> int \<times> int \<Rightarrow> string list" where
  \<comment> \<open>the references of the rectangle between two corners, row by row\<close>
  "rectangle_refs a b =
     concat (map (\<lambda>row. map (\<lambda>col. indices_to_cell_ref row col)
                           [min (snd a) (snd b)..max (snd a) (snd b)])
               [min (fst a) (fst b)..max (fst a) (fst b)])"

definition active_sheet_present :: "'f session_state \<Rightarrow> bool" where
  \<comment> \<open>the active-sheet pointer names a sheet of the document\<close>
  "active_sheet_present st =
     list_ex (\<lambda>s. sheet_id s = activeSheet (spreadsheet_data st)) (sheets (spreadsheet_data st))"

definition formula_set :: "'f cell \<Rightarrow> bool" where
  \<comment> \<open>the cell's formula field is set\<close>
  "formula_set c = (get_truthy (cell_formula c) \<noteq> None)"

definition cached_only :: "string \<times> 'f cell \<Rightarrow> string \<times> 'f cell \<Rightarrow> bool" where
  \<comment> \<open>an entry of the cells dictionary before and after: same key, same value and formula
      fields, and the very same cell unless its formula field is set\<close>
  "cached_only before after =
     (fst after = fst before
      \<and> cell_value (snd after) = cell_value (snd before)
      \<and> cell_formula (snd after) = cell_formula (snd before)
      \<and> (\<not> formula_set (snd before) \<longrightarrow> snd after = snd before))"

text \<open>
  An exact arithmetic on the reals that reads unsigned decimal integers, to run the model
  on concrete sheets.
\<close>

definition exact_ops :: "real float_ops" where
  "exact_ops =
     \<lparr>float_of_str = (\<lambda>s. if s \<noteq> [] \<and> list_all is_digit s then Some (real_of_int (int_of_digits s)) else None),
      float_of_int = real_of_int,
      float_add = (+),
      float_div = (/),
      float_sum = sum_list\<rparr>"

section \<open>Address codec: round trips\<close>

lemma loop_value:
  "0 \<le> index \<Longrightarrow>
   foldl (\<lambda>result c. result * 26 + (of_char c - 64)) 0 (index_to_column_loop index acc)
   = foldl (\<lambda>result c. result * 26 + (of_char c - 64)) (index + 1) acc"
proof (induction index acc rule: index_to_column_loop.induct)
  case (1 index result)
  let ?r = "index mod 26"
  have r: "0 \<le> ?r" "?r < 26" by simp_all
  have oc: "(of_char (char_of (65 + ?r)) :: int) = 65 + ?r"
    using r by simp
  show ?case
  proof (cases "index div 26 - 1 < 0")
    case True
    then have "index < 26" using 1(2) by linarith
    then have "?r = index" using 1(2) by simp
    then show ?thesis
      using True 1(2) oc by (subst index_to_column_loop.simps) (simp add: Let_def add.commute)
  next
    case False
    have step: "index_to_column_loop index result
        = index_to_column_loop (index div 26 - 1) (char_of (65 + ?r) # result)"
      using False 1(2) by (subst index_to_column_loop.simps) (simp add: Let_def)
    have "foldl (\<lambda>result c. result * 26 + (of_char c - 64)) 0
            (index_to_column_loop (index div 26 - 1) (char_of (65 + ?r) # result))
        = foldl (\<lambda>result c. result * 26 + (of_char c - 64)) (index div 26 - 1 + 1)
            (char_of (65 + ?r) # result)"
      using 1(1)[OF 1(2) refl refl refl False] False by simp
    also have "\<dots> = foldl (\<lambda>result c. result * 26 + (of_char c - 64)) (index + 1) result"
    proof -
      have "(index div 26) * 26 + (65 + ?r - 64) = index + 1" by simp
      then show ?thesis using oc by simp
    qed
    finally show ?thesis using step by simp
  qed
qed

lemma column_roundtrip: "0 \<le> c \<Longrightarrow> column_to_index (index_to_column c) = c"
  using loop_value[of c "[]"] by (simp add: column_to_index_def index_to_column_def)

lemma loop_upper:
  "0 \<le> index \<Longrightarrow> list_all is_upper acc \<Longrightarrow> list_all is_upper (index_to_column_loop index acc)"
proof (induction index acc rule: index_to_column_loop.induct)
  case (1 index result)
  let ?r = "index mod 26"
  have r: "0 \<le> ?r" "?r < 26" by simp_all
  have "(of_char (char_of (65 + ?r)) :: int) = 65 + ?r" using r by simp
  then have "int (of_char (char_of (65 + ?r))) = 65 + ?r"
    by (simp add: of_nat_of_char)
  then have up: "is_upper (char_of (65 + ?r))"
    using r unfolding is_upper_def Let_def by linarith
  show ?case
  proof (cases "index div 26 - 1 < 0")
    case True
    then show ?thesis
      using 1(2,3) up by (subst index_to_column_loop.simps) (simp add: Let_def)
  next
    case False
    have step: "index_to_column_loop index result
        = index_to_column_loop (index div 26 - 1) (char_of (65 + ?r) # result)"
      using False 1(2) by (subst index_to_column_loop.simps) (simp add: Let_def)
    have "list_all is_upper (index_to_column_loop (index div 26 - 1) (char_of (65 + ?r) # result))"
      using 1(1)[OF 1(2) refl refl refl False] False up 1(3) by simp
    then show ?thesis using step by simp
  qed
qed

lemma loop_nonempty:
  "0 \<le> index \<Longrightarrow> index_to_column_loop index acc \<noteq> []"
proof (induction index acc rule: index_to_column_loop.induct)
  case (1 index result)
  show ?case
  proof (cases "index div 26 - 1 < 0")
    case True
    then show ?thesis
      using 1(2) by (subst index_to_column_loop.simps) (simp add: Let_def)
  next
    case False
    then show ?thesis
      using 1(1)[OF 1(2) refl refl refl False] 1(2)
      by (subst index_to_column_loop.simps) (simp add: Let_def)
  qed
qed

lemma digit_char_props:
  assumes "d < 10"
  shows "is_digit (digit_char d)" "\<not> is_upper (digit_char d)"
        "(of_char (digit_char d) :: int) = 48 + int d"
proof -
  have n: "(of_char (digit_char d) :: nat) = 48 + d"
    using assms by (simp add: digit_char_def)
  show "is_digit (digit_char d)" using n assms by (simp add: is_digit_def)
  show "\<not> is_upper (digit_char d)" using n assms by (simp add: is_upper_def)
  have "int (of_char (digit_char d)) = int (48 + d)" using n by simp
  then show "(of_char (digit_char d) :: int) = 48 + int d" by (simp add: of_nat_of_char)
qed

lemma str_nat_digits: "list_all is_digit (str_nat n)"
proof (induction n rule: str_nat.induct)
  case (1 n)
  show ?case
  proof (cases "n < 10")
    case True
    then show ?thesis by (subst str_nat.simps) (simp add: digit_char_props)
  next
    case False
    then show ?thesis using 1 by (subst str_nat.simps) (simp add: digit_char_props)
  qed
qed

lemma str_nat_not_upper: "list_all (\<lambda>c. \<not> is_upper c) (str_nat n)"
proof (induction n rule: str_nat.induct)
  case (1 n)
  show ?case
  proof (cases "n < 10")
    case True
    then show ?thesis by (subst str_nat.simps) (simp add: digit_char_props)
  next
    case False
    then show ?thesis using 1 by (subst str_nat.simps) (simp add: digit_char_props)
  qed
qed

lemma str_nat_nonempty: "str_nat n \<noteq> []"
  by (subst str_nat.simps) simp

lemma int_of_digits_snoc:
  "int_of_digits (s @ [c]) = int_of_digits s * 10 + (of_char c - 48)"
  by (simp add: int_of_digits_def)

lemma int_of_str_nat: "int_of_digits (str_nat n) = int n"
proof (induction n rule: str_nat.induct)
  case (1 n)
  show ?case
  proof (cases "n < 10")
    case True
    then show ?thesis
      by (subst str_nat.simps) (simp add: int_of_digits_def digit_char_props)
  next
    case False
    have "int_of_digits (str_nat n) = int_of_digits (str_nat (n div 10)) * 10 + (of_char (digit_char (n mod 10)) - 48)"
      using False by (subst str_nat.simps) (simp add: int_of_digits_snoc)
    also have "\<dots> = int (n div 10) * 10 + int (n mod 10)"
      using 1[OF False] by (simp add: digit_char_props)
    also have "\<dots> = int n" by (simp add: zdiv_int zmod_int)
    finally show ?thesis .
  qed
qed

lemma takeWhile_all: "list_all P xs \<Longrightarrow> ys = [] \<or> \<not> P (hd ys) \<Longrightarrow> takeWhile P (xs @ ys) = xs"
  by (induction xs) (cases ys, auto)

lemma dropWhile_all: "list_all P xs \<Longrightarrow> ys = [] \<or> \<not> P (hd ys) \<Longrightarrow> dropWhile P (xs @ ys) = ys"
  by (induction xs) (cases ys, auto)

lemma reference_roundtrip:
  assumes "0 \<le> row" "0 \<le> col"
  shows "cell_ref_to_indices (indices_to_cell_ref row col) = Some (row, col)"
proof -
  let ?c = "index_to_column col" and ?d = "str_nat (nat (row + 1))"
  have ref: "indices_to_cell_ref row col = ?c @ ?d"
    using assms by (simp add: indices_to_cell_ref_def str_int_def)
  have cu: "list_all is_upper ?c" and cn: "?c \<noteq> []"
    using assms loop_upper[of col "[]"] loop_nonempty[of col "[]"]
    by (simp_all add: index_to_column_def)
  have dn: "?d \<noteq> []" by (rule str_nat_nonempty)
  have hd: "\<not> is_upper (hd ?d)"
    using str_nat_not_upper[of "nat (row + 1)"] dn by (cases ?d) simp_all
  have tw: "takeWhile is_upper (?c @ ?d) = ?c" and dw: "dropWhile is_upper (?c @ ?d) = ?d"
    using cu hd by (simp_all add: takeWhile_all dropWhile_all)
  have td: "takeWhile is_digit ?d = ?d"
    using takeWhile_all[of is_digit ?d "[]"] str_nat_digits[of "nat (row + 1)"] by simp
  have "int_of_digits ?d - 1 = row" using assms by (simp add: int_of_str_nat)
  moreover have "column_to_index ?c = col" using assms(2) by (rule column_roundtrip)
  ultimately show ?thesis
    unfolding ref cell_ref_to_indices_def Let_def tw dw td using cn dn by simp
qed

text \<open>
  C2. For every non-negative column index, decoding the encoded column gives the index
  back; the columns 0, 25, 26 and 701 are encoded as A, Z, AA and ZZ; and for every
  non-negative row and column, parsing the reference built from them gives the pair back.
\<close>

theorem codec_roundtrip:
  "(0 \<le> c \<longrightarrow> column_to_index (index_to_column c) = c)
   \<and> index_to_column 0 = ''A'' \<and> index_to_column 25 = ''Z''
   \<and> index_to_column 26 = ''AA'' \<and> index_to_column 701 = ''ZZ''
   \<and> (0 \<le> row \<and> 0 \<le> col \<longrightarrow> cell_ref_to_indices (indices_to_cell_ref row col) = Some (row, col))"
proof -
  have spot: "index_to_column 0 = ''A''" "index_to_column 25 = ''Z''"
             "index_to_column 26 = ''AA''" "index_to_column 701 = ''ZZ''"
    by code_simp+
  show ?thesis
    using spot column_roundtrip reference_roundtrip by blast
qed

theorem codec_roundtrip_witness:
  "column_to_index (index_to_column 27) = 27
   \<and> cell_ref_to_indices (indices_to_cell_ref 5 30) = Some (5, 30)"
  using codec_roundtrip [of 27 5 30] by simp

section \<open>Address codec: what a reference is\<close>

lemma digit_not_upper: "is_digit c \<Longrightarrow> \<not> is_upper c"
  by (simp add: is_digit_def is_upper_def Let_def)

lemma takeWhile_append_stop:
  "list_all P xs \<Longrightarrow> ys \<noteq> [] \<Longrightarrow> \<not> P (hd ys) \<Longrightarrow> takeWhile P (xs @ ys @ zs) = xs"
  by (induction xs) (cases ys, auto)

lemma dropWhile_append_stop:
  "list_all P xs \<Longrightarrow> ys \<noteq> [] \<Longrightarrow> \<not> P (hd ys) \<Longrightarrow> dropWhile P (xs @ ys @ zs) = ys @ zs"
  by (induction xs) (cases ys, auto)

lemma is_reference_parts:
  assumes "is_reference p"
  obtains ls ds where "p = ls @ ds" "ls \<noteq> []" "ds \<noteq> []" "list_all is_upper ls" "list_all is_digit ds"
proof -
  let ?ls = "takeWhile is_upper p" and ?ds = "dropWhile is_upper p"
  have "p = ?ls @ ?ds" by simp
  moreover have "?ls \<noteq> []" "?ds \<noteq> []" "list_all is_digit ?ds"
    using assms by (simp_all add: is_reference_def Let_def)
  moreover have "list_all is_upper ?ls"
    by (simp add: list_all_iff) (meson set_takeWhileD)
  ultimately show ?thesis using that by blast
qed

lemma parts_parse:
  assumes "ls \<noteq> []" "ds \<noteq> []" "list_all is_upper ls" "list_all is_digit ds"
      and "t = [] \<or> \<not> is_digit (hd t)"
  shows "cell_ref_to_indices (ls @ ds @ t) = Some (int_of_digits ds - 1, column_to_index ls)"
proof -
  have hd: "\<not> is_upper (hd ds)"
    using assms(2,4) by (cases ds) (simp_all add: digit_not_upper)
  have tw: "takeWhile is_upper (ls @ ds @ t) = ls" and dw: "dropWhile is_upper (ls @ ds @ t) = ds @ t"
    using assms(2,3) hd by (simp_all add: takeWhile_append_stop dropWhile_append_stop)
  have td: "takeWhile is_digit (ds @ t) = ds"
    using assms(4,5) by (induction ds) (cases t, auto)
  show ?thesis
    unfolding cell_ref_to_indices_def Let_def tw dw td using assms(1,2) by simp
qed

lemma parse_iff_prefix:
  "cell_ref_to_indices s = None \<longleftrightarrow> (\<forall>n. \<not> is_reference (take n s))"
proof
  assume none: "cell_ref_to_indices s = None"
  show "\<forall>n. \<not> is_reference (take n s)"
  proof (intro allI notI)
    fix n assume "is_reference (take n s)"
    then obtain ls ds where p: "take n s = ls @ ds" "ls \<noteq> []" "ds \<noteq> []"
        "list_all is_upper ls" "list_all is_digit ds"
      by (rule is_reference_parts)
    have s: "s = ls @ ds @ drop n s"
      using p(1) append_take_drop_id[of n s] by (metis append.assoc)
    have hd: "\<not> is_upper (hd ds)"
      using p(3,5) by (cases ds) (simp_all add: digit_not_upper)
    have tw: "takeWhile is_upper s = ls" and dw: "dropWhile is_upper s = ds @ drop n s"
      using p(3,4) hd s takeWhile_append_stop[of is_upper ls ds "drop n s"]
        dropWhile_append_stop[of is_upper ls ds "drop n s"] by simp_all
    have "takeWhile is_digit (ds @ drop n s) \<noteq> []"
      using p(3,5) by (cases ds) simp_all
    then have "cell_ref_to_indices s \<noteq> None"
      using p(2) unfolding cell_ref_to_indices_def Let_def tw dw by simp
    then show False using none by simp
  qed
next
  assume all: "\<forall>n. \<not> is_reference (take n s)"
  show "cell_ref_to_indices s = None"
  proof (rule ccontr)
    assume "cell_ref_to_indices s \<noteq> None"
    let ?ls = "takeWhile is_upper s" and ?rest = "dropWhile is_upper s"
    let ?ds = "takeWhile is_digit ?rest"
    have ne: "?ls \<noteq> []" "?ds \<noteq> []"
      using \<open>cell_ref_to_indices s \<noteq> None\<close>
      by (auto simp: cell_ref_to_indices_def Let_def split: if_splits)
    have s: "s = ?ls @ ?ds @ dropWhile is_digit ?rest" by simp
    have lu: "list_all is_upper ?ls" by (simp add: list_all_iff) (meson set_takeWhileD)
    have dd: "list_all is_digit ?ds" by (simp add: list_all_iff) (meson set_takeWhileD)
    have hd: "\<not> is_upper (hd ?ds)"
      using ne(2) dd by (cases ?ds) (simp_all add: digit_not_upper)
    have "take (length (?ls @ ?ds)) s = ?ls @ ?ds"
      by (subst s) (simp del: takeWhile_dropWhile_id)
    moreover have "is_reference (?ls @ ?ds)"
      using ne lu dd hd takeWhile_append_stop[of is_upper ?ls ?ds "[]"]
        dropWhile_append_stop[of is_upper ?ls ?ds "[]"]
      by (simp add: is_reference_def Let_def)
    ultimately show False using all by metis
  qed
qed

lemma parse_ignores_suffix:
  assumes "is_reference p" "t = [] \<or> \<not> is_digit (hd t)"
  shows "cell_ref_to_indices (p @ t) = cell_ref_to_indices p"
proof -
  obtain ls ds where p: "p = ls @ ds" "ls \<noteq> []" "ds \<noteq> []" "list_all is_upper ls" "list_all is_digit ds"
    using assms(1) by (rule is_reference_parts)
  have "cell_ref_to_indices (ls @ ds @ t) = Some (int_of_digits ds - 1, column_to_index ls)"
    using p assms(2) by (intro parts_parse) simp_all
  moreover have "cell_ref_to_indices (ls @ ds @ []) = Some (int_of_digits ds - 1, column_to_index ls)"
    using p by (intro parts_parse) simp_all
  ultimately show ?thesis using p(1) by simp
qed

lemma parse_needs_letter:
  assumes "s = [] \<or> \<not> is_upper (hd s)"
  shows "cell_ref_to_indices s = None"
  using assms by (cases s) (simp_all add: cell_ref_to_indices_def)

text \<open>
  C3, as stated, fails: the regular expression is matched at the start of the text only, so
  a text with further characters after the digits is parsed. \<^verbatim>\<open>A1x\<close> is not a reference and
  is read as row 0, column 0.
\<close>

theorem parse_reference_trailing_counterexample:
  "\<not> is_reference ''A1x'' \<and> cell_ref_to_indices ''A1x'' = Some (0, 0)"
  by (simp add: is_reference_def cell_ref_to_indices_def is_upper_def is_digit_def
        int_of_digits_def column_to_index_def Let_def)

text \<open>
  C3, amended. Parsing fails on exactly the texts of which no prefix is a reference, among
  them the empty text and every text whose first character is not an uppercase letter; what
  follows a reference and does not continue its digits is ignored.
\<close>

theorem parse_reference_prefix:
  "(cell_ref_to_indices s = None \<longleftrightarrow> (\<forall>n. \<not> is_reference (take n s)))
   \<and> (s = [] \<or> \<not> is_upper (hd s) \<longrightarrow> cell_ref_to_indices s = None)
   \<and> (is_reference p \<and> (t = [] \<or> \<not> is_digit (hd t))
        \<longrightarrow> cell_ref_to_indices (p @ t) = cell_ref_to_indices p)"
proof (intro conjI impI)
  show "cell_ref_to_indices s = None \<longleftrightarrow> (\<forall>n. \<not> is_reference (take n s))"
    by (rule parse_iff_prefix)
next
  assume "s = [] \<or> \<not> is_upper (hd s)"
  then show "cell_ref_to_indices s = None" by (rule parse_needs_letter)
next
  assume "is_reference p \<and> (t = [] \<or> \<not> is_digit (hd t))"
  then show "cell_ref_to_indices (p @ t) = cell_ref_to_indices p"
    using parse_ignores_suffix by blast
qed

theorem parse_reference_prefix_witness:
  "\<not> is_upper (hd ''a1'') \<and> cell_ref_to_indices ''a1'' = None
   \<and> is_reference ''B7'' \<and> \<not> is_digit (hd ''x'')
   \<and> cell_ref_to_indices ''B7x'' = cell_ref_to_indices ''B7''"
proof -
  have a: "\<not> is_upper (hd ''a1'')" by (simp add: is_upper_def)
  have b: "is_reference ''B7''" by (simp add: is_reference_def is_upper_def is_digit_def)
  have c: "\<not> is_digit (hd ''x'')" by (simp add: is_digit_def)
  note t = parse_reference_prefix [of "''a1''" "''B7''" "''x''"]
  have "cell_ref_to_indices ''a1'' = None"
    using t [THEN conjunct2, THEN conjunct1] a by simp
  moreover have "cell_ref_to_indices (''B7'' @ ''x'') = cell_ref_to_indices ''B7''"
    using t [THEN conjunct2, THEN conjunct2] b c by simp
  ultimately show ?thesis using a b c by simp
qed

section \<open>Formula evaluator\<close>

lemma two_colons_raise:
  "parse_formula ops ''=SUM(A1:B1:C1)'' sheet = Inl ValueError"
  by (simp add: parse_formula_def startswith_def endswith_def strip_def is_space_def Let_def)

text \<open>
  An exception leaves \<^verbatim>\<open>parse_formula\<close> in no other way: it is a \<^verbatim>\<open>ValueError\<close>, and
  the formula holds two colons or more.
\<close>

lemma length_split_on:
  "length (split_on c s) = Suc (length (filter (\<lambda>x. x = c) s))"
  by (induction s) (auto split: list.splits)

lemma count_dropWhile: "length (filter P (dropWhile Q s)) \<le> length (filter P s)"
  by (induction s) auto

lemma count_drop: "length (filter P (drop n s)) \<le> length (filter P s)"
  by (metis append_take_drop_id filter_append le_add2 length_append)

lemma count_butlast: "length (filter P (butlast s)) \<le> length (filter P s)"
  by (metis butlast_conv_take append_take_drop_id filter_append le_add1 length_append)

lemma count_strip: "length (filter P (strip s)) \<le> length (filter P s)"
proof -
  have "length (filter P (strip s)) = length (filter P (dropWhile is_space (rev (dropWhile is_space s))))"
    by (simp add: strip_def rev_filter[symmetric])
  also have "\<dots> \<le> length (filter P (rev (dropWhile is_space s)))" by (rule count_dropWhile)
  also have "\<dots> = length (filter P (dropWhile is_space s))" by (simp add: rev_filter[symmetric])
  also have "\<dots> \<le> length (filter P s)" by (rule count_dropWhile)
  finally show ?thesis .
qed

lemma count_formula_text:
  "length (filter P (if startswith formula ''='' then strip (drop 1 formula) else strip formula))
     \<le> length (filter P formula)"
  using count_strip[of P "drop 1 formula"] count_drop[of P 1 formula] count_strip[of P formula]
  by auto

lemma split_three:
  assumes "\<And>a b. split_on c s \<noteq> [a, b]" "c \<in> set s"
  shows "2 \<le> length (filter (\<lambda>x. x = c) s)"
proof (rule ccontr)
  assume n: "\<not> 2 \<le> length (filter (\<lambda>x. x = c) s)"
  have "filter (\<lambda>x. x = c) s \<noteq> []" using assms(2) by (simp add: filter_empty_conv)
  then have "1 \<le> length (filter (\<lambda>x. x = c) s)"
    by (cases "filter (\<lambda>x. x = c) s") auto
  then have l: "length (split_on c s) = 2" using n by (simp add: length_split_on)
  then obtain x xs where 1: "split_on c s = x # xs" by (cases "split_on c s") auto
  then obtain y ys where 2: "xs = y # ys" using l by (cases xs) auto
  have "ys = []" using l 1 2 by simp
  then have "split_on c s = [x, y]" using 1 2 by simp
  then show False using assms(1)[of x y] by simp
qed

lemma parse_average_raises_only:
  assumes "parse_average ops t sheet = Inl e"
  shows "2 \<le> length (filter (\<lambda>x. x = CHR '':'') t)"
proof -
  let ?rt = "butlast (drop 8 t)"
  have c: "CHR '':'' \<in> set ?rt" and ns: "\<And>a b. split_on CHR '':'' ?rt \<noteq> [a, b]"
    using assms
    by (auto simp: parse_average_def Let_def split: if_splits list.splits option.splits prod.splits)
  have "2 \<le> length (filter (\<lambda>x. x = CHR '':'') ?rt)" using ns c by (rule split_three)
  also have "\<dots> \<le> length (filter (\<lambda>x. x = CHR '':'') (drop 8 t))" by (rule count_butlast)
  also have "\<dots> \<le> length (filter (\<lambda>x. x = CHR '':'') t)" by (rule count_drop)
  finally show ?thesis .
qed

lemma parse_formula_raises_only:
  assumes "parse_formula ops formula sheet = Inl e"
  shows "e = ValueError \<and> 2 \<le> length (filter (\<lambda>x. x = CHR '':'') formula)"
proof -
  let ?t = "if startswith formula ''='' then strip (drop 1 formula) else strip formula"
  let ?rt = "butlast (drop 4 ?t)"
  have e: "e = ValueError"
    using assms
    by (auto simp: parse_formula_def parse_average_def Let_def
          split: if_splits list.splits option.splits prod.splits)
  have "parse_average ops ?t sheet = Inl e
        \<or> (CHR '':'' \<in> set ?rt \<and> (\<forall>a b. split_on CHR '':'' ?rt \<noteq> [a, b]))"
    using assms
    by (auto simp: parse_formula_def Let_def
          split: if_splits list.splits option.splits prod.splits)
  then have "2 \<le> length (filter (\<lambda>x. x = CHR '':'') ?t)"
  proof
    assume "parse_average ops ?t sheet = Inl e"
    then show ?thesis by (rule parse_average_raises_only)
  next
    assume a: "CHR '':'' \<in> set ?rt \<and> (\<forall>a b. split_on CHR '':'' ?rt \<noteq> [a, b])"
    then have "2 \<le> length (filter (\<lambda>x. x = CHR '':'') ?rt)"
      by (intro split_three) auto
    also have "\<dots> \<le> length (filter (\<lambda>x. x = CHR '':'') (drop 4 ?t))" by (rule count_butlast)
    also have "\<dots> \<le> length (filter (\<lambda>x. x = CHR '':'') ?t)" by (rule count_drop)
    finally show ?thesis .
  qed
  also have "\<dots> \<le> length (filter (\<lambda>x. x = CHR '':'') formula)" by (rule count_formula_text)
  finally show ?thesis using e by simp
qed

text \<open>
  C1 does not hold of the code. A SUM whose argument holds two colons is split into three
  parts, and unpacking them into two names raises \<^verbatim>\<open>ValueError\<close>, which leaves
  \<^verbatim>\<open>parse_formula\<close>: the formula is not returned as text.
\<close>

theorem parse_formula_raises:
  "parse_formula ops ''=SUM(A1:B1:C1)'' sheet = Inl ValueError"
  by (rule two_colons_raise)

subsection \<open>Aggregation over lists and ranges\<close>

lemma endswith_paren: "endswith (xs @ '')'') '')''"
  by (simp add: endswith_def)

lemma parse_formula_SUM:
  assumes "pre = [] \<or> pre = ''=''"
  shows "parse_formula ops (pre @ ''SUM('' @ body @ '')'') sheet =
     (if CHR '':'' \<in> set body then
        (case split_on CHR '':'' body of
           [start_ref, end_ref] \<Rightarrow>
             (case (cell_ref_to_indices start_ref, cell_ref_to_indices end_ref) of
                (Some a, Some b) \<Rightarrow> Inr (Number (sum_range ops sheet a b))
              | _ \<Rightarrow> parse_average ops (''SUM('' @ body @ '')'') sheet)
         | _ \<Rightarrow> Inl ValueError)
      else Inr (Number (foldl (sum_step ops sheet) (PyInt 0) (map strip (split_on CHR '','' body)))))"
proof -
  have ft: "(if startswith (pre @ ''SUM('' @ body @ '')'') ''=''
             then strip (drop 1 (pre @ ''SUM('' @ body @ '')''))
             else strip (pre @ ''SUM('' @ body @ '')'')) = ''SUM('' @ body @ '')''"
    using assms by (auto simp: startswith_def strip_def is_space_def)
  have sw: "startswith (''SUM('' @ body @ '')'') ''SUM(''" by (simp add: startswith_def)
  have ew: "endswith (''SUM('' @ body @ '')'') '')''"
    using endswith_paren[of "''SUM('' @ body"] by simp
  have rt: "butlast (drop 4 (''SUM('' @ body @ '')'')) = body" by (simp add: butlast_append)
  show ?thesis
    unfolding parse_formula_def ft Let_def using sw ew rt by simp
qed

lemma parse_average_AVERAGE:
  "parse_average ops (''AVERAGE('' @ body @ '')'') sheet =
     (if CHR '':'' \<in> set body then
        (case split_on CHR '':'' body of
           [start_ref, end_ref] \<Rightarrow>
             (case (cell_ref_to_indices start_ref, cell_ref_to_indices end_ref) of
                (Some a, Some b) \<Rightarrow> Inr (Number (average_range ops sheet a b))
              | _ \<Rightarrow> Inr (Text (''AVERAGE('' @ body @ '')'')))
         | _ \<Rightarrow> Inl ValueError)
      else Inr (Text (''AVERAGE('' @ body @ '')'')))"
proof -
  have sw: "startswith (''AVERAGE('' @ body @ '')'') ''AVERAGE(''" by (simp add: startswith_def)
  have ew: "endswith (''AVERAGE('' @ body @ '')'') '')''"
    using endswith_paren[of "''AVERAGE('' @ body"] by simp
  have rt: "butlast (drop 8 (''AVERAGE('' @ body @ '')'')) = body" by (simp add: butlast_append)
  show ?thesis
    unfolding parse_average_def Let_def using sw ew rt by simp
qed

lemma parse_formula_AVERAGE:
  assumes "pre = [] \<or> pre = ''=''"
  shows "parse_formula ops (pre @ ''AVERAGE('' @ body @ '')'') sheet
           = parse_average ops (''AVERAGE('' @ body @ '')'') sheet"
proof -
  have ft: "(if startswith (pre @ ''AVERAGE('' @ body @ '')'') ''=''
             then strip (drop 1 (pre @ ''AVERAGE('' @ body @ '')''))
             else strip (pre @ ''AVERAGE('' @ body @ '')'')) = ''AVERAGE('' @ body @ '')''"
    using assms by (auto simp: startswith_def strip_def is_space_def)
  have sw: "\<not> startswith (''AVERAGE('' @ body @ '')'') ''SUM(''" by (simp add: startswith_def)
  show ?thesis
    unfolding parse_formula_def ft Let_def using sw by simp
qed

lemma split_on_none: "c \<notin> set r \<Longrightarrow> split_on c r = [r]"
  by (induction r) auto

lemma split_on_append: "c \<notin> set r \<Longrightarrow> split_on c (r @ c # rest) = r # split_on c rest"
  by (induction r) auto

lemma split_on_join:
  "rs \<noteq> [] \<Longrightarrow> \<forall>r\<in>set rs. CHR '','' \<notin> set r \<Longrightarrow> split_on CHR '','' (join_commas rs) = rs"
proof (induction rs rule: join_commas.induct)
  case 1
  then show ?case by simp
next
  case (2 r)
  then show ?case by (simp add: split_on_none)
next
  case (3 r v va)
  then show ?case by (simp add: split_on_append)
qed

lemma set_join_commas: "set (join_commas rs) \<subseteq> insert CHR '','' (\<Union>r\<in>set rs. set r)"
  by (induction rs rule: join_commas.induct) auto

lemma split_on_pair:
  "c \<notin> set a \<Longrightarrow> c \<notin> set b \<Longrightarrow> split_on c (a @ c # b) = [a, b]"
  by (simp add: split_on_append split_on_none)

lemma sum_step_numeric:
  "sum_step ops sheet acc r =
     (case numeric_content ops sheet r of None \<Rightarrow> acc | Some x \<Rightarrow> num_add ops acc x)"
  by (simp add: sum_step_def numeric_content_def get_truthy_def
        split: option.splits pyval.splits)

lemma average_step_numeric:
  "average_step ops sheet vs r =
     (case numeric_content ops sheet r of None \<Rightarrow> vs | Some x \<Rightarrow> vs @ [x])"
  by (simp add: average_step_def numeric_content_def get_truthy_def
        split: option.splits pyval.splits)

lemma foldl_sum_step:
  "foldl (sum_step ops sheet) acc refs
     = foldl (num_add ops) acc (List.map_filter (numeric_content ops sheet) refs)"
  by (induction refs arbitrary: acc)
     (simp_all add: sum_step_numeric List.map_filter_simps split: option.splits)

lemma foldl_average_step:
  "foldl (average_step ops sheet) vs refs
     = vs @ List.map_filter (numeric_content ops sheet) refs"
  by (induction refs arbitrary: vs)
     (simp_all add: average_step_numeric List.map_filter_simps split: option.splits)

lemma nested_loops:
  "foldl (\<lambda>acc row. foldl (\<lambda>acc col. f acc (g row col)) acc cols) acc rows
     = foldl f acc (concat (map (\<lambda>row. map (g row) cols) rows))"
proof (induction rows arbitrary: acc)
  case Nil
  then show ?case by simp
next
  case (Cons row rows)
  have "foldl (\<lambda>acc col. f acc (g row col)) acc cols = foldl f acc (map (g row) cols)"
    by (simp add: foldl_map)
  then show ?case using Cons by simp
qed

lemma sum_range_refs:
  "sum_range ops sheet a b
     = foldl (num_add ops) (PyInt 0) (List.map_filter (numeric_content ops sheet) (rectangle_refs a b))"
proof -
  have "sum_range ops sheet a b = foldl (sum_step ops sheet) (PyInt 0) (rectangle_refs a b)"
    unfolding sum_range_def rectangle_refs_def Let_def
    by (rule nested_loops[of "sum_step ops sheet" indices_to_cell_ref])
  then show ?thesis by (simp add: foldl_sum_step)
qed

lemma average_range_refs:
  "average_range ops sheet a b =
     (let xs = List.map_filter (numeric_content ops sheet) (rectangle_refs a b)
      in if xs \<noteq> [] then PyFloat (float_div ops (float_sum ops xs) (float_of_int ops (int (length xs))))
         else PyInt 0)"
proof -
  have "foldl (\<lambda>values row.
           foldl (\<lambda>values col. average_step ops sheet values (indices_to_cell_ref row col))
             values [min (snd a) (snd b)..max (snd a) (snd b)])
          [] [min (fst a) (fst b)..max (fst a) (fst b)]
        = foldl (average_step ops sheet) [] (rectangle_refs a b)"
    unfolding rectangle_refs_def
    by (rule nested_loops[of "average_step ops sheet" indices_to_cell_ref])
  then show ?thesis
    unfolding average_range_def Let_def by (simp add: foldl_average_step)
qed

lemma map_filter_all_None:
  "\<forall>r\<in>set rs. f r = None \<Longrightarrow> List.map_filter f rs = []"
  by (induction rs) (simp_all add: List.map_filter_simps)

lemma sum_range_commute: "sum_range ops sheet a b = sum_range ops sheet b a"
  by (simp add: sum_range_def min.commute max.commute)

lemma average_range_commute: "average_range ops sheet a b = average_range ops sheet b a"
  by (simp add: average_range_def min.commute max.commute)

lemma reference_no_colon:
  assumes "is_reference r"
  shows "CHR '':'' \<notin> set r"
proof -
  obtain ls ds where p: "r = ls @ ds" "list_all is_upper ls" "list_all is_digit ds"
    using assms by (rule is_reference_parts)
  have "\<not> is_upper CHR '':''" "\<not> is_digit CHR '':''"
    by (simp_all add: is_upper_def is_digit_def)
  then show ?thesis using p by (auto simp: list_all_iff)
qed

lemma reference_parses:
  assumes "is_reference r"
  shows "cell_ref_to_indices r \<noteq> None"
  using parse_iff_prefix[of r] assms by (metis order_refl take_all)

text \<open>
  C4. For every sheet, a SUM over a comma list of one or more items (none of which holds a
  comma or a colon), written with or without the leading \<^verbatim>\<open>=\<close>, returns the sum, taken
  from left to right, of what the trimmed items contribute; an AVERAGE over such a list is
  not a supported shape and returns the formula body as text, so \<^verbatim>\<open>AVERAGE(A1,B1,C1)\<close>
  yields that very text.
\<close>

theorem sum_list_average_list:
  assumes "pre = [] \<or> pre = ''=''" "rs \<noteq> []"
      and "\<forall>r\<in>set rs. CHR '','' \<notin> set r \<and> CHR '':'' \<notin> set r"
  shows "parse_formula ops (pre @ ''SUM('' @ join_commas rs @ '')'') sheet
           = Inr (Number (foldl (num_add ops) (PyInt 0)
                            (List.map_filter (numeric_content ops sheet) (map strip rs))))
         \<and> parse_formula ops (pre @ ''AVERAGE('' @ join_commas rs @ '')'') sheet
           = Inr (Text (''AVERAGE('' @ join_commas rs @ '')''))"
proof -
  have nc: "CHR '':'' \<notin> set (join_commas rs)"
    using set_join_commas[of rs] assms(3) by auto
  have sp: "split_on CHR '','' (join_commas rs) = rs"
    using assms(2,3) by (simp add: split_on_join)
  have "parse_formula ops (pre @ ''SUM('' @ join_commas rs @ '')'') sheet
          = Inr (Number (foldl (sum_step ops sheet) (PyInt 0) (map strip rs)))"
    unfolding parse_formula_SUM[OF assms(1)] using nc sp by simp
  moreover have "parse_formula ops (pre @ ''AVERAGE('' @ join_commas rs @ '')'') sheet
          = Inr (Text (''AVERAGE('' @ join_commas rs @ '')''))"
    unfolding parse_formula_AVERAGE[OF assms(1)] parse_average_AVERAGE using nc by simp
  ultimately show ?thesis by (simp add: foldl_sum_step)
qed

theorem sum_list_average_list_witness:
  "parse_formula exact_ops (''=SUM(A1,'' @ [CHR 0xA0] @ ''A2 ,B1'' @ [CHR 0x85] @ '')'')
     \<lparr>sheet_id = ''sheet1'', sheet_name = ''Sheet1'',
      cells = [(''A1'', \<lparr>cell_value = Some (PyStr ''1''), cell_formula = Some PyNone, cachedValue = None\<rparr>),
               (''A2'', \<lparr>cell_value = Some (PyStr ''2''), cell_formula = Some PyNone, cachedValue = None\<rparr>),
               (''B1'', \<lparr>cell_value = Some (PyStr ''x''), cell_formula = Some PyNone, cachedValue = None\<rparr>),
               (''B2'', \<lparr>cell_value = Some (PyStr []), cell_formula = Some PyNone, cachedValue = None\<rparr>)]\<rparr>
     = Inr (Number (PyFloat 3))
   \<and> parse_formula exact_ops ''AVERAGE(A1,B1,C1)''
     \<lparr>sheet_id = ''sheet1'', sheet_name = ''Sheet1'',
      cells = [(''A1'', \<lparr>cell_value = Some (PyStr ''1''), cell_formula = Some PyNone, cachedValue = None\<rparr>),
               (''A2'', \<lparr>cell_value = Some (PyStr ''2''), cell_formula = Some PyNone, cachedValue = None\<rparr>),
               (''B1'', \<lparr>cell_value = Some (PyStr ''x''), cell_formula = Some PyNone, cachedValue = None\<rparr>),
               (''B2'', \<lparr>cell_value = Some (PyStr []), cell_formula = Some PyNone, cachedValue = None\<rparr>)]\<rparr>
     = Inr (Text ''AVERAGE(A1,B1,C1)'')"
proof -
  let ?w = "\<lparr>sheet_id = ''sheet1'', sheet_name = ''Sheet1'',
      cells = [(''A1'', \<lparr>cell_value = Some (PyStr ''1''), cell_formula = Some PyNone, cachedValue = (None :: real result option)\<rparr>),
               (''A2'', \<lparr>cell_value = Some (PyStr ''2''), cell_formula = Some PyNone, cachedValue = None\<rparr>),
               (''B1'', \<lparr>cell_value = Some (PyStr ''x''), cell_formula = Some PyNone, cachedValue = None\<rparr>),
               (''B2'', \<lparr>cell_value = Some (PyStr []), cell_formula = Some PyNone, cachedValue = None\<rparr>)]\<rparr>"
  let ?rs = "[''A1'', [CHR 0xA0] @ ''A2 '', ''B1'' @ [CHR 0x85]]"
  have st: "map strip ?rs = [''A1'', ''A2'', ''B1'']"
    by (simp add: strip_def is_space_def)
  have h: "\<forall>r\<in>set ?rs. CHR '','' \<notin> set r \<and> CHR '':'' \<notin> set r" by simp
  have v: "foldl (num_add exact_ops) (PyInt 0)
             (List.map_filter (numeric_content exact_ops ?w) [''A1'', ''A2'', ''B1''])
           = PyFloat 3"
    by (simp add: List.map_filter_simps numeric_content_def exact_ops_def
          is_digit_def int_of_digits_def num_add_def to_float_def)
  have s: "parse_formula exact_ops (''='' @ ''SUM('' @ join_commas ?rs @ '')'') ?w
             = Inr (Number (PyFloat 3))"
    using sum_list_average_list [of "''=''" ?rs exact_ops ?w, THEN conjunct1] h
    unfolding st v by simp
  have a: "parse_formula exact_ops ([] @ ''AVERAGE('' @ join_commas [''A1'', ''B1'', ''C1''] @ '')'') ?w
             = Inr (Text (''AVERAGE('' @ join_commas [''A1'', ''B1'', ''C1''] @ '')''))"
    using sum_list_average_list [of "[]" "[''A1'', ''B1'', ''C1'']" exact_ops ?w, THEN conjunct2]
    by simp
  show ?thesis using s a by simp
qed

text \<open>
  C5. For a range between two corners that parse, SUM returns the sum of the contributions
  of the references of the normalised rectangle and AVERAGE their mean, where a reference
  whose cell is absent, whose value is missing or empty, or whose value does not read as a
  float contributes nothing, to the sum as to the count; when no visited reference
  contributes, both return the number 0 and no division takes place.
\<close>

theorem aggregation_skips:
  assumes "pre = [] \<or> pre = ''=''"
      and "cell_ref_to_indices r1 = Some a" "cell_ref_to_indices r2 = Some b"
      and "CHR '':'' \<notin> set r1" "CHR '':'' \<notin> set r2"
  shows "parse_formula ops (pre @ ''SUM('' @ r1 @ '':'' @ r2 @ '')'') sheet
           = Inr (Number (foldl (num_add ops) (PyInt 0)
                            (List.map_filter (numeric_content ops sheet) (rectangle_refs a b))))
         \<and> parse_formula ops (pre @ ''AVERAGE('' @ r1 @ '':'' @ r2 @ '')'') sheet
           = Inr (Number
                   (let xs = List.map_filter (numeric_content ops sheet) (rectangle_refs a b)
                    in if xs = [] then PyInt 0
                       else PyFloat (float_div ops (float_sum ops xs)
                                       (float_of_int ops (int (length xs))))))
         \<and> ((\<forall>r\<in>set (rectangle_refs a b). numeric_content ops sheet r = None) \<longrightarrow>
               parse_formula ops (pre @ ''SUM('' @ r1 @ '':'' @ r2 @ '')'') sheet
                 = Inr (Number (PyInt 0))
             \<and> parse_formula ops (pre @ ''AVERAGE('' @ r1 @ '':'' @ r2 @ '')'') sheet
                 = Inr (Number (PyInt 0)))"
proof -
  let ?body = "r1 @ '':'' @ r2"
  have c: "CHR '':'' \<in> set ?body" by simp
  have sp: "split_on CHR '':'' ?body = [r1, r2]"
    using assms(4,5) split_on_pair[of "CHR '':''" r1 r2] by simp
  have s: "parse_formula ops (pre @ ''SUM('' @ ?body @ '')'') sheet
             = Inr (Number (sum_range ops sheet a b))"
    unfolding parse_formula_SUM[OF assms(1)] using c sp assms(2,3) by simp
  have av: "parse_formula ops (pre @ ''AVERAGE('' @ ?body @ '')'') sheet
             = Inr (Number (average_range ops sheet a b))"
    unfolding parse_formula_AVERAGE[OF assms(1)] parse_average_AVERAGE
    using c sp assms(2,3) by simp
  have s': "parse_formula ops (pre @ ''SUM('' @ r1 @ '':'' @ r2 @ '')'') sheet
             = Inr (Number (foldl (num_add ops) (PyInt 0)
                      (List.map_filter (numeric_content ops sheet) (rectangle_refs a b))))"
    using s by (simp add: sum_range_refs)
  have av': "parse_formula ops (pre @ ''AVERAGE('' @ r1 @ '':'' @ r2 @ '')'') sheet
           = Inr (Number
                   (let xs = List.map_filter (numeric_content ops sheet) (rectangle_refs a b)
                    in if xs = [] then PyInt 0
                       else PyFloat (float_div ops (float_sum ops xs)
                                       (float_of_int ops (int (length xs))))))"
    using av by (simp add: average_range_refs Let_def)
  have z: "parse_formula ops (pre @ ''SUM('' @ r1 @ '':'' @ r2 @ '')'') sheet
                 = Inr (Number (PyInt 0))
             \<and> parse_formula ops (pre @ ''AVERAGE('' @ r1 @ '':'' @ r2 @ '')'') sheet
                 = Inr (Number (PyInt 0))"
    if "\<forall>r\<in>set (rectangle_refs a b). numeric_content ops sheet r = None"
  proof -
    have "List.map_filter (numeric_content ops sheet) (rectangle_refs a b) = []"
      using that by (rule map_filter_all_None)
    then show ?thesis using s' av' by simp
  qed
  show ?thesis using s' av' z by blast
qed

theorem aggregation_skips_witness:
  "parse_formula exact_ops ''=SUM(A1:B2)''
     \<lparr>sheet_id = ''sheet1'', sheet_name = ''Sheet1'',
      cells = [(''A1'', \<lparr>cell_value = Some (PyStr ''1''), cell_formula = Some PyNone, cachedValue = None\<rparr>),
               (''A2'', \<lparr>cell_value = Some (PyStr ''2''), cell_formula = Some PyNone, cachedValue = None\<rparr>),
               (''B1'', \<lparr>cell_value = Some (PyStr ''x''), cell_formula = Some PyNone, cachedValue = None\<rparr>),
               (''B2'', \<lparr>cell_value = Some (PyStr []), cell_formula = Some PyNone, cachedValue = None\<rparr>)]\<rparr>
     = Inr (Number (PyFloat 3))
   \<and> parse_formula exact_ops ''=AVERAGE(A1:B2)''
     \<lparr>sheet_id = ''sheet1'', sheet_name = ''Sheet1'',
      cells = [(''A1'', \<lparr>cell_value = Some (PyStr ''1''), cell_formula = Some PyNone, cachedValue = None\<rparr>),
               (''A2'', \<lparr>cell_value = Some (PyStr ''2''), cell_formula = Some PyNone, cachedValue = None\<rparr>),
               (''B1'', \<lparr>cell_value = Some (PyStr ''x''), cell_formula = Some PyNone, cachedValue = None\<rparr>),
               (''B2'', \<lparr>cell_value = Some (PyStr []), cell_formula = Some PyNone, cachedValue = None\<rparr>)]\<rparr>
     = Inr (Number (PyFloat (3 / 2)))
   \<and> rectangle_refs (0, 1) (1, 1) = [''B1'', ''B2'']
   \<and> numeric_content exact_ops
     \<lparr>sheet_id = ''sheet1'', sheet_name = ''Sheet1'',
      cells = [(''A1'', \<lparr>cell_value = Some (PyStr ''1''), cell_formula = Some PyNone, cachedValue = None\<rparr>),
               (''A2'', \<lparr>cell_value = Some (PyStr ''2''), cell_formula = Some PyNone, cachedValue = None\<rparr>),
               (''B1'', \<lparr>cell_value = Some (PyStr ''x''), cell_formula = Some PyNone, cachedValue = None\<rparr>),
               (''B2'', \<lparr>cell_value = Some (PyStr []), cell_formula = Some PyNone, cachedValue = None\<rparr>)]\<rparr> ''B1'' = None
   \<and> numeric_content exact_ops
     \<lparr>sheet_id = ''sheet1'', sheet_name = ''Sheet1'',
      cells = [(''A1'', \<lparr>cell_value = Some (PyStr ''1''), cell_formula = Some PyNone, cachedValue = None\<rparr>),
               (''A2'', \<lparr>cell_value = Some (PyStr ''2''), cell_formula = Some PyNone, cachedValue = None\<rparr>),
               (''B1'', \<lparr>cell_value = Some (PyStr ''x''), cell_formula = Some PyNone, cachedValue = None\<rparr>),
               (''B2'', \<lparr>cell_value = Some (PyStr []), cell_formula = Some PyNone, cachedValue = None\<rparr>)]\<rparr> ''B2'' = None
   \<and> parse_formula exact_ops ''SUM(B1:B2)''
     \<lparr>sheet_id = ''sheet1'', sheet_name = ''Sheet1'',
      cells = [(''A1'', \<lparr>cell_value = Some (PyStr ''1''), cell_formula = Some PyNone, cachedValue = None\<rparr>),
               (''A2'', \<lparr>cell_value = Some (PyStr ''2''), cell_formula = Some PyNone, cachedValue = None\<rparr>),
               (''B1'', \<lparr>cell_value = Some (PyStr ''x''), cell_formula = Some PyNone, cachedValue = None\<rparr>),
               (''B2'', \<lparr>cell_value = Some (PyStr []), cell_formula = Some PyNone, cachedValue = None\<rparr>)]\<rparr>
     = Inr (Number (PyInt 0))
   \<and> parse_formula exact_ops ''AVERAGE(B1:B2)''
     \<lparr>sheet_id = ''sheet1'', sheet_name = ''Sheet1'',
      cells = [(''A1'', \<lparr>cell_value = Some (PyStr ''1''), cell_formula = Some PyNone, cachedValue = None\<rparr>),
               (''A2'', \<lparr>cell_value = Some (PyStr ''2''), cell_formula = Some PyNone, cachedValue = None\<rparr>),
               (''B1'', \<lparr>cell_value = Some (PyStr ''x''), cell_formula = Some PyNone, cachedValue = None\<rparr>),
               (''B2'', \<lparr>cell_value = Some (PyStr []), cell_formula = Some PyNone, cachedValue = None\<rparr>)]\<rparr>
     = Inr (Number (PyInt 0))"
proof -
  let ?w = "\<lparr>sheet_id = ''sheet1'', sheet_name = ''Sheet1'',
      cells = [(''A1'', \<lparr>cell_value = Some (PyStr ''1''), cell_formula = Some PyNone, cachedValue = (None :: real result option)\<rparr>),
               (''A2'', \<lparr>cell_value = Some (PyStr ''2''), cell_formula = Some PyNone, cachedValue = None\<rparr>),
               (''B1'', \<lparr>cell_value = Some (PyStr ''x''), cell_formula = Some PyNone, cachedValue = None\<rparr>),
               (''B2'', \<lparr>cell_value = Some (PyStr []), cell_formula = Some PyNone, cachedValue = None\<rparr>)]\<rparr>"
  have a1: "cell_ref_to_indices ''A1'' = Some (0, 0)" and b1: "cell_ref_to_indices ''B1'' = Some (0, 1)"
    and b2: "cell_ref_to_indices ''B2'' = Some (1, 1)"
    by (simp_all add: cell_ref_to_indices_def is_upper_def is_digit_def int_of_digits_def
          column_to_index_def)
  have ra: "rectangle_refs (0, 0) (1, 1) = [''A1'', ''B1'', ''A2'', ''B2'']"
    and rb: "rectangle_refs (0, 1) (1, 1) = [''B1'', ''B2'']"
    by code_simp+
  have xs: "List.map_filter (numeric_content exact_ops ?w) [''A1'', ''B1'', ''A2'', ''B2''] = [1, 2]"
    by (simp add: List.map_filter_simps numeric_content_def exact_ops_def is_digit_def
          int_of_digits_def)
  have none: "\<forall>r\<in>set (rectangle_refs (0, 1) (1, 1)). numeric_content exact_ops ?w r = None"
    unfolding rb by (simp add: numeric_content_def exact_ops_def is_digit_def)
  note t = aggregation_skips [of "''=''" "''A1''" "(0, 0)" "''B2''" "(1, 1)" exact_ops ?w,
      unfolded ra xs]
  note u = aggregation_skips [of "[]" "''B1''" "(0, 1)" "''B2''" "(1, 1)" exact_ops ?w]
  have s: "parse_formula exact_ops ''=SUM(A1:B2)'' ?w = Inr (Number (PyFloat 3))"
    using t [THEN conjunct1] a1 b2 by (simp add: num_add_def to_float_def exact_ops_def)
  have av: "parse_formula exact_ops ''=AVERAGE(A1:B2)'' ?w = Inr (Number (PyFloat (3 / 2)))"
    using t [THEN conjunct2, THEN conjunct1] a1 b2 by (simp add: exact_ops_def)
  have z: "parse_formula exact_ops ''SUM(B1:B2)'' ?w = Inr (Number (PyInt 0))
           \<and> parse_formula exact_ops ''AVERAGE(B1:B2)'' ?w = Inr (Number (PyInt 0))"
    using u [THEN conjunct2, THEN conjunct2] b1 b2 none by simp
  have n1: "numeric_content exact_ops ?w ''B1'' = None" and n2: "numeric_content exact_ops ?w ''B2'' = None"
    using none unfolding rb by simp_all
  show ?thesis using s av rb n1 n2 z by blast
qed

text \<open>
  C6. For every sheet and every two corner references, the rectangle of a range is taken
  from the smaller to the larger row and from the smaller to the larger column of the two
  corners, each on its own: SUM over the range returns the sum, and AVERAGE the mean, of
  what the references of that rectangle contribute. So SUM over the range from the first
  corner to the second equals SUM over the range from the second to the first, and likewise
  AVERAGE.
\<close>

theorem range_corner_order:
  assumes "pre = [] \<or> pre = ''=''" "is_reference r1" "is_reference r2"
      and "cell_ref_to_indices r1 = Some (row1, col1)"
      and "cell_ref_to_indices r2 = Some (row2, col2)"
  shows "parse_formula ops (pre @ ''SUM('' @ r1 @ '':'' @ r2 @ '')'') sheet
           = parse_formula ops (pre @ ''SUM('' @ r2 @ '':'' @ r1 @ '')'') sheet
         \<and> parse_formula ops (pre @ ''AVERAGE('' @ r1 @ '':'' @ r2 @ '')'') sheet
           = parse_formula ops (pre @ ''AVERAGE('' @ r2 @ '':'' @ r1 @ '')'') sheet
         \<and> parse_formula ops (pre @ ''SUM('' @ r1 @ '':'' @ r2 @ '')'') sheet
           = Inr (Number (foldl (num_add ops) (PyInt 0)
               (List.map_filter (numeric_content ops sheet)
                  (concat (map (\<lambda>row. map (\<lambda>col. indices_to_cell_ref row col)
                                         [min col1 col2..max col1 col2])
                             [min row1 row2..max row1 row2])))))
         \<and> parse_formula ops (pre @ ''AVERAGE('' @ r1 @ '':'' @ r2 @ '')'') sheet
           = Inr (Number
               (let xs = List.map_filter (numeric_content ops sheet)
                           (concat (map (\<lambda>row. map (\<lambda>col. indices_to_cell_ref row col)
                                                  [min col1 col2..max col1 col2])
                                      [min row1 row2..max row1 row2]))
                in if xs = [] then PyInt 0
                   else PyFloat (float_div ops (float_sum ops xs)
                                   (float_of_int ops (int (length xs))))))"
proof -
  let ?a = "(row1, col1)" and ?b = "(row2, col2)"
  have nc: "CHR '':'' \<notin> set r1" "CHR '':'' \<notin> set r2"
    using assms(2,3) by (simp_all add: reference_no_colon)
  have sp: "split_on CHR '':'' (r1 @ '':'' @ r2) = [r1, r2]"
           "split_on CHR '':'' (r2 @ '':'' @ r1) = [r2, r1]"
    using nc split_on_pair[of "CHR '':''" r1 r2] split_on_pair[of "CHR '':''" r2 r1] by simp_all
  have s12: "parse_formula ops (pre @ ''SUM('' @ (r1 @ '':'' @ r2) @ '')'') sheet
               = Inr (Number (sum_range ops sheet ?a ?b))"
    unfolding parse_formula_SUM[OF assms(1)] using sp assms(4,5) by simp
  have s21: "parse_formula ops (pre @ ''SUM('' @ (r2 @ '':'' @ r1) @ '')'') sheet
               = Inr (Number (sum_range ops sheet ?b ?a))"
    unfolding parse_formula_SUM[OF assms(1)] using sp assms(4,5) by simp
  have a12: "parse_formula ops (pre @ ''AVERAGE('' @ (r1 @ '':'' @ r2) @ '')'') sheet
               = Inr (Number (average_range ops sheet ?a ?b))"
    unfolding parse_formula_AVERAGE[OF assms(1)] parse_average_AVERAGE using sp assms(4,5) by simp
  have a21: "parse_formula ops (pre @ ''AVERAGE('' @ (r2 @ '':'' @ r1) @ '')'') sheet
               = Inr (Number (average_range ops sheet ?b ?a))"
    unfolding parse_formula_AVERAGE[OF assms(1)] parse_average_AVERAGE using sp assms(4,5) by simp
  have rect: "rectangle_refs ?a ?b
                = concat (map (\<lambda>row. map (\<lambda>col. indices_to_cell_ref row col)
                                        [min col1 col2..max col1 col2])
                            [min row1 row2..max row1 row2])"
    by (simp add: rectangle_refs_def)
  have sv: "sum_range ops sheet ?a ?b
              = foldl (num_add ops) (PyInt 0)
                  (List.map_filter (numeric_content ops sheet)
                     (concat (map (\<lambda>row. map (\<lambda>col. indices_to_cell_ref row col)
                                            [min col1 col2..max col1 col2])
                                [min row1 row2..max row1 row2])))"
    unfolding sum_range_refs rect ..
  have av: "average_range ops sheet ?a ?b
              = (let xs = List.map_filter (numeric_content ops sheet)
                           (concat (map (\<lambda>row. map (\<lambda>col. indices_to_cell_ref row col)
                                                  [min col1 col2..max col1 col2])
                                      [min row1 row2..max row1 row2]))
                 in if xs = [] then PyInt 0
                    else PyFloat (float_div ops (float_sum ops xs)
                                    (float_of_int ops (int (length xs)))))"
    unfolding average_range_refs rect by (simp add: Let_def)
  have e1: "parse_formula ops (pre @ ''SUM('' @ r1 @ '':'' @ r2 @ '')'') sheet
              = parse_formula ops (pre @ ''SUM('' @ r2 @ '':'' @ r1 @ '')'') sheet"
    using s12 s21 sum_range_commute[of ops sheet ?a ?b] by simp
  have e2: "parse_formula ops (pre @ ''AVERAGE('' @ r1 @ '':'' @ r2 @ '')'') sheet
              = parse_formula ops (pre @ ''AVERAGE('' @ r2 @ '':'' @ r1 @ '')'') sheet"
    using a12 a21 average_range_commute[of ops sheet ?a ?b] by simp
  have v1: "parse_formula ops (pre @ ''SUM('' @ r1 @ '':'' @ r2 @ '')'') sheet
           = Inr (Number (foldl (num_add ops) (PyInt 0)
               (List.map_filter (numeric_content ops sheet)
                  (concat (map (\<lambda>row. map (\<lambda>col. indices_to_cell_ref row col)
                                         [min col1 col2..max col1 col2])
                             [min row1 row2..max row1 row2])))))"
    using s12 sv by simp
  have v2: "parse_formula ops (pre @ ''AVERAGE('' @ r1 @ '':'' @ r2 @ '')'') sheet
           = Inr (Number
               (let xs = List.map_filter (numeric_content ops sheet)
                           (concat (map (\<lambda>row. map (\<lambda>col. indices_to_cell_ref row col)
                                                  [min col1 col2..max col1 col2])
                                      [min row1 row2..max row1 row2]))
                in if xs = [] then PyInt 0
                   else PyFloat (float_div ops (float_sum ops xs)
                                   (float_of_int ops (int (length xs))))))"
    using a12 av by simp
  show ?thesis using e1 e2 v1 v2 by (intro conjI)
qed

theorem range_corner_order_witness:
  "is_reference ''A2'' \<and> is_reference ''B1''
   \<and> cell_ref_to_indices ''A2'' = Some (1, 0) \<and> cell_ref_to_indices ''B1'' = Some (0, 1)
   \<and> parse_formula exact_ops ''=SUM(A2:B1)''
     \<lparr>sheet_id = ''sheet1'', sheet_name = ''Sheet1'',
      cells = [(''A1'', \<lparr>cell_value = Some (PyStr ''1''), cell_formula = Some PyNone, cachedValue = None\<rparr>),
               (''A2'', \<lparr>cell_value = Some (PyStr ''2''), cell_formula = Some PyNone, cachedValue = None\<rparr>),
               (''B1'', \<lparr>cell_value = Some (PyStr ''x''), cell_formula = Some PyNone, cachedValue = None\<rparr>),
               (''B2'', \<lparr>cell_value = Some (PyStr []), cell_formula = Some PyNone, cachedValue = None\<rparr>)]\<rparr>
     = Inr (Number (PyFloat 3))
   \<and> parse_formula exact_ops ''=SUM(B1:A2)''
     \<lparr>sheet_id = ''sheet1'', sheet_name = ''Sheet1'',
      cells = [(''A1'', \<lparr>cell_value = Some (PyStr ''1''), cell_formula = Some PyNone, cachedValue = None\<rparr>),
               (''A2'', \<lparr>cell_value = Some (PyStr ''2''), cell_formula = Some PyNone, cachedValue = None\<rparr>),
               (''B1'', \<lparr>cell_value = Some (PyStr ''x''), cell_formula = Some PyNone, cachedValue = None\<rparr>),
               (''B2'', \<lparr>cell_value = Some (PyStr []), cell_formula = Some PyNone, cachedValue = None\<rparr>)]\<rparr>
     = Inr (Number (PyFloat 3))
   \<and> parse_formula exact_ops ''=AVERAGE(A2:B1)''
     \<lparr>sheet_id = ''sheet1'', sheet_name = ''Sheet1'',
      cells = [(''A1'', \<lparr>cell_value = Some (PyStr ''1''), cell_formula = Some PyNone, cachedValue = None\<rparr>),
               (''A2'', \<lparr>cell_value = Some (PyStr ''2''), cell_formula = Some PyNone, cachedValue = None\<rparr>),
               (''B1'', \<lparr>cell_value = Some (PyStr ''x''), cell_formula = Some PyNone, cachedValue = None\<rparr>),
               (''B2'', \<lparr>cell_value = Some (PyStr []), cell_formula = Some PyNone, cachedValue = None\<rparr>)]\<rparr>
     = Inr (Number (PyFloat (3 / 2)))
   \<and> parse_formula exact_ops ''=AVERAGE(B1:A2)''
     \<lparr>sheet_id = ''sheet1'', sheet_name = ''Sheet1'',
      cells = [(''A1'', \<lparr>cell_value = Some (PyStr ''1''), cell_formula = Some PyNone, cachedValue = None\<rparr>),
               (''A2'', \<lparr>cell_value = Some (PyStr ''2''), cell_formula = Some PyNone, cachedValue = None\<rparr>),
               (''B1'', \<lparr>cell_value = Some (PyStr ''x''), cell_formula = Some PyNone, cachedValue = None\<rparr>),
               (''B2'', \<lparr>cell_value = Some (PyStr []), cell_formula = Some PyNone, cachedValue = None\<rparr>)]\<rparr>
     = Inr (Number (PyFloat (3 / 2)))"
proof -
  let ?w = "\<lparr>sheet_id = ''sheet1'', sheet_name = ''Sheet1'',
      cells = [(''A1'', \<lparr>cell_value = Some (PyStr ''1''), cell_formula = Some PyNone, cachedValue = (None :: real result option)\<rparr>),
               (''A2'', \<lparr>cell_value = Some (PyStr ''2''), cell_formula = Some PyNone, cachedValue = None\<rparr>),
               (''B1'', \<lparr>cell_value = Some (PyStr ''x''), cell_formula = Some PyNone, cachedValue = None\<rparr>),
               (''B2'', \<lparr>cell_value = Some (PyStr []), cell_formula = Some PyNone, cachedValue = None\<rparr>)]\<rparr>"
  have r: "is_reference ''A2''" "is_reference ''B1''"
    by (simp_all add: is_reference_def is_upper_def is_digit_def)
  have i: "cell_ref_to_indices ''A2'' = Some (1, 0)" "cell_ref_to_indices ''B1'' = Some (0, 1)"
    by (simp_all add: cell_ref_to_indices_def is_upper_def is_digit_def int_of_digits_def
          column_to_index_def)
  have rect: "concat (map (\<lambda>row. map (\<lambda>col. indices_to_cell_ref row col)
                                     [min (0::int) 1..max 0 1])
                         [min (1::int) 0..max 1 0])
               = [''A1'', ''B1'', ''A2'', ''B2'']"
    by code_simp
  have xs: "List.map_filter (numeric_content exact_ops ?w) [''A1'', ''B1'', ''A2'', ''B2''] = [1, 2]"
    by (simp add: List.map_filter_simps numeric_content_def exact_ops_def is_digit_def
          int_of_digits_def)
  note t = range_corner_order [of "''=''" "''A2''" "''B1''" 1 0 0 1 exact_ops ?w,
      OF _ r i, unfolded rect xs]
  have s: "parse_formula exact_ops ''=SUM(A2:B1)'' ?w = Inr (Number (PyFloat 3))"
    using t [THEN conjunct2, THEN conjunct2, THEN conjunct1]
    by (simp add: num_add_def to_float_def exact_ops_def)
  have av: "parse_formula exact_ops ''=AVERAGE(A2:B1)'' ?w = Inr (Number (PyFloat (3 / 2)))"
    using t [THEN conjunct2, THEN conjunct2, THEN conjunct2] by (simp add: exact_ops_def)
  have s': "parse_formula exact_ops ''=SUM(B1:A2)'' ?w = Inr (Number (PyFloat 3))"
    using t [THEN conjunct1] s by simp
  have av': "parse_formula exact_ops ''=AVERAGE(B1:A2)'' ?w = Inr (Number (PyFloat (3 / 2)))"
    using t [THEN conjunct2, THEN conjunct1] av by simp
  show ?thesis using r i s s' av av' by (intro conjI)
qed

section \<open>Cell store\<close>

lemma find_None_iff_list_ex: "find P xs = None \<longleftrightarrow> \<not> list_ex P xs"
  by (induction xs) auto


text \<open>
  C8, as stated, fails: \<^verbatim>\<open>update_cell\<close> looks the sheet up and, when there is none, returns.
  On the initial document, which has no sheet \<^verbatim>\<open>sheet9\<close>, it ends without an exception and
  leaves the state as it was.
\<close>

theorem update_cell_silent_counterexample:
  "update_cell exact_ops ''sheet9'' ''A1''
     \<lparr>upd_value = Some (PyStr ''5''), upd_formula = Some PyNone, upd_cachedValue = None\<rparr>
     initial_state = (initial_state, None)"
  by (simp add: update_cell_def initial_state_def empty_sheet_def)

text \<open>
  C8, amended. The cell update invoked with a sheet id that no sheet of the document has
  returns normally and has no effect: the whole session state is unchanged.
\<close>

theorem update_cell_unknown_sheet:
  "\<not> list_ex (\<lambda>s. sheet_id s = sid) (sheets (spreadsheet_data st))
   \<Longrightarrow> update_cell ops sid cell_ref upd st = (st, None)"
proof -
  assume "\<not> list_ex (\<lambda>s. sheet_id s = sid) (sheets (spreadsheet_data st))"
  then have "find (\<lambda>s. sheet_id s = sid) (sheets (spreadsheet_data st)) = None"
    by (simp add: find_None_iff_list_ex)
  then show ?thesis by (simp add: update_cell_def)
qed

theorem update_cell_unknown_sheet_witness:
  "\<not> list_ex (\<lambda>s. sheet_id s = ''sheet2'')
        (sheets (spreadsheet_data (initial_state :: real session_state)))
   \<and> update_cell exact_ops ''sheet2'' ''B2''
        \<lparr>upd_value = Some PyNone, upd_formula = Some (PyStr ''=SUM(A1:A2)''),
         upd_cachedValue = None\<rparr>
        initial_state = (initial_state, None)"
proof -
  have h: "\<not> list_ex (\<lambda>s. sheet_id s = ''sheet2'')
              (sheets (spreadsheet_data (initial_state :: real session_state)))"
    by (simp add: initial_state_def empty_sheet_def)
  show ?thesis using h update_cell_unknown_sheet [OF h] by simp
qed

subsection \<open>The active-sheet pointer\<close>

lemma map_id_update_first:
  "(\<And>s. sheet_id (f s) = sheet_id s) \<Longrightarrow> map sheet_id (update_first i f ss) = map sheet_id ss"
  by (induction ss) auto

lemma ids_update_first:
  assumes "\<And>s. sheet_id (f s) = sheet_id s"
  shows "sheet_id ` set (update_first i f ss) = sheet_id ` set ss"
  using map_id_update_first[OF assms, of i ss] by (metis set_map)

lemma evaluate_cells_fst_keys:
  "map fst (fst (evaluate_cells ops w visited todo)) = map fst visited @ map fst todo"
  by (induction ops w visited todo rule: evaluate_cells.induct)
     (auto split: option.splits sum.splits)

lemma evaluate_worksheet_id:
  "sheet_id (fst (evaluate_worksheet_formulas ops w)) = sheet_id w"
  by (simp add: evaluate_worksheet_formulas_def split: prod.splits)

lemma store_cell_id: "sheet_id (store_cell r d s) = sheet_id s"
  by (simp add: store_cell_def Let_def)

lemma present_iff:
  "active_sheet_present st \<longleftrightarrow> activeSheet (spreadsheet_data st) \<in> sheet_id ` set (sheets (spreadsheet_data st))"
  by (force simp: active_sheet_present_def list_ex_iff)

lemma find_Some_id: "find (\<lambda>s. sheet_id s = sid) ss = Some s \<Longrightarrow> sheet_id s = sid"
  by (induction ss) (auto split: if_splits)

lemma present_update_cell:
  assumes "active_sheet_present st"
  shows "active_sheet_present (fst (update_cell ops sid r d st))"
proof (cases "find (\<lambda>s. sheet_id s = sid) (sheets (spreadsheet_data st))")
  case None
  then show ?thesis using assms by (simp add: update_cell_def)
next
  case (Some sheet)
  have sid: "sheet_id sheet = sid" using Some by (rule find_Some_id)
  obtain sheet2 err where e:
    "(if upd_formula d \<noteq> None \<or> upd_value d \<noteq> None
      then evaluate_worksheet_formulas ops (store_cell r d sheet)
      else (store_cell r d sheet, None)) = (sheet2, err)"
    by (cases "(if upd_formula d \<noteq> None \<or> upd_value d \<noteq> None
      then evaluate_worksheet_formulas ops (store_cell r d sheet)
      else (store_cell r d sheet, None))") auto
  have id2: "sheet_id sheet2 = sid"
    using e sid evaluate_worksheet_id[of ops "store_cell r d sheet"] store_cell_id[of r d sheet]
    by (auto split: if_splits)
  have upd: "fst (update_cell ops sid r d st)
      = st\<lparr>spreadsheet_data := (spreadsheet_data st)\<lparr>sheets := update_first sid (\<lambda>_. sheet2) (sheets (spreadsheet_data st))\<rparr>,
           is_modified := True\<rparr>"
    using Some e by (simp add: update_cell_def Let_def)
  have "map sheet_id (update_first sid (\<lambda>_. sheet2) ss) = map sheet_id ss" for ss
    using id2 by (induction ss) auto
  then have ids: "sheet_id ` set (update_first sid (\<lambda>_. sheet2) ss) = sheet_id ` set ss" for ss
    by (metis set_map)
  show ?thesis using assms unfolding upd present_iff by (simp add: ids)
qed

lemma present_add_sheet: "active_sheet_present (add_sheet st)"
  by (simp add: add_sheet_def active_sheet_present_def Let_def empty_sheet_def)

lemma present_new: "active_sheet_present (new_spreadsheet st)"
  by (simp add: new_spreadsheet_def active_sheet_present_def empty_sheet_def)

lemma present_rename:
  "active_sheet_present st \<Longrightarrow> active_sheet_present (rename_sheet sid n st)"
proof -
  assume a: "active_sheet_present st"
  have ids: "sheet_id ` set (update_first sid (\<lambda>s. s\<lparr>sheet_name := n\<rparr>) ss) = sheet_id ` set ss" for ss
    by (rule ids_update_first) simp
  show ?thesis using a unfolding present_iff by (simp add: rename_sheet_def Let_def ids)
qed

lemma present_remove:
  assumes "active_sheet_present st" "snd (remove_sheet sid st) = None"
  shows "active_sheet_present (fst (remove_sheet sid st))"
proof (cases "length (sheets (spreadsheet_data st)) \<le> 1")
  case True
  then show ?thesis using assms by (simp add: remove_sheet_def Let_def)
next
  case False
  let ?kept = "filter (\<lambda>s. sheet_id s \<noteq> sid) (sheets (spreadsheet_data st))"
  show ?thesis
  proof (cases "activeSheet (spreadsheet_data st) = sid")
    case True
    then show ?thesis
      using False assms(2)
      by (cases ?kept) (simp_all add: remove_sheet_def Let_def active_sheet_present_def)
  next
    case neq: False
    have "list_ex (\<lambda>s. sheet_id s = activeSheet (spreadsheet_data st)) ?kept"
      using assms(1) neq by (auto simp: active_sheet_present_def list_ex_iff)
    then show ?thesis
      using False neq by (simp add: remove_sheet_def Let_def active_sheet_present_def)
  qed
qed

lemma present_save:
  "active_sheet_present st \<Longrightarrow> active_sheet_present (snd (save_spreadsheet name u now ok st))"
  by (simp add: save_spreadsheet_def Let_def active_sheet_present_def)

lemma evaluate_sheets_ids:
  "map sheet_id (fst (evaluate_sheets ops visited todo)) = map sheet_id visited @ map sheet_id todo"
proof (induction ops visited todo rule: evaluate_sheets.induct)
  case (1 ops visited)
  then show ?case by simp
next
  case (2 ops visited sheet rest)
  obtain sheet' err where e: "evaluate_worksheet_formulas ops sheet = (sheet', err)"
    by (cases "evaluate_worksheet_formulas ops sheet") auto
  have id: "sheet_id sheet' = sheet_id sheet"
    using evaluate_worksheet_id[of ops sheet] e by simp
  show ?case
  proof (cases err)
    case None
    then show ?thesis using 2(1)[OF e[symmetric, unfolded None] refl] e id by simp
  next
    case (Some x)
    then show ?thesis using e id by simp
  qed
qed

lemma present_load:
  assumes "active_sheet_present st"
      and "\<And>fd. read_result = Some fd \<Longrightarrow>
             list_ex (\<lambda>s. sheet_id s = activeSheet (data fd)) (sheets (data fd))"
  shows "active_sheet_present (snd (load_spreadsheet ops read_result st))"
proof (cases read_result)
  case None
  then show ?thesis using assms(1) by (simp add: load_spreadsheet_def)
next
  case (Some fd)
  obtain ss err where e: "evaluate_sheets ops [] (sheets (data fd)) = (ss, err)"
    by (cases "evaluate_sheets ops [] (sheets (data fd))") auto
  have "map sheet_id ss = map sheet_id (sheets (data fd))"
    using evaluate_sheets_ids[of ops "[]" "sheets (data fd)"] e by simp
  then have ids: "sheet_id ` set ss = sheet_id ` set (sheets (data fd))"
    by (metis set_map)
  have "activeSheet (data fd) \<in> sheet_id ` set (sheets (data fd))"
    using assms(2)[OF Some] by (force simp: list_ex_iff)
  then show ?thesis
    using Some e ids unfolding present_iff by (simp add: load_spreadsheet_def Let_def)
qed

lemma set_active_effect:
  "activeSheet (spreadsheet_data (set_active_sheet sid st)) = sid"
  "sheets (spreadsheet_data (set_active_sheet sid st)) = sheets (spreadsheet_data st)"
  "is_modified (set_active_sheet sid st) = is_modified st"
  "current_file (set_active_sheet sid st) = current_file st"
  "active_sheet_present (set_active_sheet sid st)
     \<longleftrightarrow> list_ex (\<lambda>s. sheet_id s = sid) (sheets (spreadsheet_data st))"
  by (simp_all add: set_active_sheet_def active_sheet_present_def)

text \<open>
  C7, as stated, fails: \<^verbatim>\<open>set_active_sheet\<close> stores whatever id it is given. On the initial
  document the pointer names a sheet; after \<^verbatim>\<open>set_active_sheet\<close> with the unknown id
  \<^verbatim>\<open>sheet9\<close> it has moved from \<^verbatim>\<open>sheet1\<close> to \<^verbatim>\<open>sheet9\<close> and names no sheet.
\<close>

theorem set_active_sheet_unknown_counterexample:
  "active_sheet_present (initial_state :: real session_state)
   \<and> activeSheet (spreadsheet_data (initial_state :: real session_state)) = ''sheet1''
   \<and> activeSheet (spreadsheet_data (set_active_sheet ''sheet9'' (initial_state :: real session_state)))
       = ''sheet9''
   \<and> \<not> active_sheet_present (set_active_sheet ''sheet9'' (initial_state :: real session_state))"
  by (simp add: set_active_sheet_def active_sheet_present_def initial_state_def empty_sheet_def)

text \<open>
  C7, amended. \<^verbatim>\<open>set_active_sheet\<close> stores the given id in the pointer whether or not a sheet
  has it, and changes neither the sheets nor the dirty flag; after it the pointer names a
  sheet of the document exactly when the id is that of a sheet. The pointer always names a
  sheet after a new document and after adding a sheet; renaming a sheet, updating a cell and
  saving keep it so, removing a sheet keeps it so whenever the removal returns normally, and
  loading keeps it so when the record that was read has a pointer that names one of its own
  sheets.
\<close>

theorem active_sheet_pointer:
  "activeSheet (spreadsheet_data (set_active_sheet sid st)) = sid
   \<and> sheets (spreadsheet_data (set_active_sheet sid st)) = sheets (spreadsheet_data st)
   \<and> is_modified (set_active_sheet sid st) = is_modified st
   \<and> (active_sheet_present (set_active_sheet sid st)
        \<longleftrightarrow> list_ex (\<lambda>s. sheet_id s = sid) (sheets (spreadsheet_data st)))
   \<and> active_sheet_present (new_spreadsheet st)
   \<and> active_sheet_present (add_sheet st)
   \<and> (active_sheet_present st \<longrightarrow>
         active_sheet_present (rename_sheet sid n st)
       \<and> active_sheet_present (fst (update_cell ops sid r upd st))
       \<and> active_sheet_present (snd (save_spreadsheet nm u now ok st))
       \<and> (snd (remove_sheet sid st) = None \<longrightarrow> active_sheet_present (fst (remove_sheet sid st)))
       \<and> ((\<forall>fd. rr = Some fd \<longrightarrow>
               list_ex (\<lambda>s. sheet_id s = activeSheet (data fd)) (sheets (data fd)))
            \<longrightarrow> active_sheet_present (snd (load_spreadsheet ops rr st))))"
proof (intro conjI impI)
  show "activeSheet (spreadsheet_data (set_active_sheet sid st)) = sid"
    by (rule set_active_effect)
  show "sheets (spreadsheet_data (set_active_sheet sid st)) = sheets (spreadsheet_data st)"
    by (rule set_active_effect)
  show "is_modified (set_active_sheet sid st) = is_modified st"
    by (rule set_active_effect)
  show "active_sheet_present (set_active_sheet sid st)
          \<longleftrightarrow> list_ex (\<lambda>s. sheet_id s = sid) (sheets (spreadsheet_data st))"
    by (rule set_active_effect)
  show "active_sheet_present (new_spreadsheet st)" by (rule present_new)
  show "active_sheet_present (add_sheet st)" by (rule present_add_sheet)
next
  assume "active_sheet_present st"
  then show "active_sheet_present (rename_sheet sid n st)" by (rule present_rename)
next
  assume "active_sheet_present st"
  then show "active_sheet_present (fst (update_cell ops sid r upd st))"
    by (rule present_update_cell)
next
  assume "active_sheet_present st"
  then show "active_sheet_present (snd (save_spreadsheet nm u now ok st))"
    by (rule present_save)
next
  assume "active_sheet_present st" "snd (remove_sheet sid st) = None"
  then show "active_sheet_present (fst (remove_sheet sid st))" by (rule present_remove)
next
  assume "active_sheet_present st"
     and "\<forall>fd. rr = Some fd \<longrightarrow>
            list_ex (\<lambda>s. sheet_id s = activeSheet (data fd)) (sheets (data fd))"
  then show "active_sheet_present (snd (load_spreadsheet ops rr st))"
    by (intro present_load) simp_all
qed

theorem active_sheet_pointer_witness:
  "active_sheet_present (add_sheet (initial_state :: real session_state))
   \<and> snd (remove_sheet ''sheet2'' (add_sheet (initial_state :: real session_state))) = None
   \<and> active_sheet_present (fst (remove_sheet ''sheet2'' (add_sheet (initial_state :: real session_state))))
   \<and> active_sheet_present (set_active_sheet ''sheet2'' (add_sheet (initial_state :: real session_state)))
   \<and> active_sheet_present (rename_sheet ''sheet2'' ''Costs'' (add_sheet (initial_state :: real session_state)))
   \<and> active_sheet_present (fst (update_cell exact_ops ''sheet2'' ''A1''
        \<lparr>upd_value = Some (PyStr ''5''), upd_formula = Some PyNone, upd_cachedValue = None\<rparr>
        (add_sheet (initial_state :: real session_state))))
   \<and> active_sheet_present (snd (save_spreadsheet (Some ''Book'') ''id-1'' ''t1'' True
        (add_sheet (initial_state :: real session_state))))
   \<and> active_sheet_present (snd (load_spreadsheet exact_ops
        (Some \<lparr>info = \<lparr>file_id = ''id-1'', file_name = ''Book'', updatedAt = ''t1'',
                        createdAt = ''t1'', userId = 1\<rparr>,
               data = \<lparr>activeSheet = ''sheet1'', sheets = [empty_sheet ''sheet1'' ''Sheet1'']\<rparr>\<rparr>)
        (add_sheet (initial_state :: real session_state))))"
proof -
  let ?st = "add_sheet (initial_state :: real session_state)"
  let ?fd = "\<lparr>info = \<lparr>file_id = ''id-1'', file_name = ''Book'', updatedAt = ''t1'',
                        createdAt = ''t1'', userId = 1\<rparr>,
               data = \<lparr>activeSheet = ''sheet1'', sheets = [empty_sheet ''sheet1'' ''Sheet1'' :: real sheet]\<rparr>\<rparr>"
  have st: "?st = \<lparr>spreadsheet_data = \<lparr>activeSheet = ''sheet2'',
                 sheets = [empty_sheet ''sheet1'' ''Sheet1'', empty_sheet ''sheet2'' ''Sheet2'']\<rparr>,
               current_file = None, is_modified = True, formula_value = [], active_cell = None\<rparr>"
    by code_simp
  have p: "active_sheet_present ?st"
    unfolding st by (simp add: active_sheet_present_def empty_sheet_def)
  have k: "list_ex (\<lambda>s. sheet_id s = ''sheet2'') (sheets (spreadsheet_data ?st))"
    unfolding st by (simp add: empty_sheet_def)
  have r: "snd (remove_sheet ''sheet2'' ?st) = None"
    unfolding st by (simp add: remove_sheet_def empty_sheet_def Let_def)
  have l: "\<forall>fd. Some ?fd = Some fd \<longrightarrow>
             list_ex (\<lambda>s. sheet_id s = activeSheet (data fd)) (sheets (data fd))"
    by (simp add: empty_sheet_def)
  note t = active_sheet_pointer [of "''sheet2''" ?st "''Costs''" exact_ops "''A1''"
      "\<lparr>upd_value = Some (PyStr ''5''), upd_formula = Some PyNone, upd_cachedValue = None\<rparr>"
      "Some ''Book''" "''id-1''" "''t1''" True "Some ?fd"]
  show ?thesis using t p k r l by blast
qed

section \<open>Re-evaluation of a worksheet\<close>

lemma cached_only_refl: "cached_only x x"
  by (simp add: cached_only_def)

lemma list_all2_cached_only_refl: "list_all2 cached_only xs xs"
  by (simp add: list_all2_refl cached_only_refl)

lemma evaluate_cells_frame:
  "\<exists>ys. fst (evaluate_cells ops w visited todo) = visited @ ys \<and> list_all2 cached_only todo ys"
proof (induction ops w visited todo rule: evaluate_cells.induct)
  case (1 ops worksheet visited)
  then show ?case by simp
next
  case (2 ops worksheet visited cell_ref cell_data rest)
  show ?case
  proof (cases "get_truthy (cell_formula cell_data)")
    case None
    from 2(1)[OF None] obtain ys where
      ys: "fst (evaluate_cells ops worksheet (visited @ [(cell_ref, cell_data)]) rest)
             = (visited @ [(cell_ref, cell_data)]) @ ys" "list_all2 cached_only rest ys"
      by blast
    have "fst (evaluate_cells ops worksheet visited ((cell_ref, cell_data) # rest))
            = visited @ ((cell_ref, cell_data) # ys)"
      using None ys(1) by simp
    moreover have "list_all2 cached_only ((cell_ref, cell_data) # rest) ((cell_ref, cell_data) # ys)"
      using ys(2) by (simp add: cached_only_refl)
    ultimately show ?thesis by blast
  next
    case (Some formula)
    let ?w = "worksheet\<lparr>cells := visited @ (cell_ref, cell_data) # rest\<rparr>"
    show ?thesis
    proof (cases "parse_formula ops formula ?w")
      case (Inl e)
      have "fst (evaluate_cells ops worksheet visited ((cell_ref, cell_data) # rest))
              = visited @ ((cell_ref, cell_data) # rest)"
        using Some Inl by simp
      then show ?thesis using list_all2_cached_only_refl by blast
    next
      case (Inr v)
      let ?c = "cell_data\<lparr>cachedValue := Some v\<rparr>"
      from 2(2)[OF Some Inr] obtain ys where
        ys: "fst (evaluate_cells ops worksheet (visited @ [(cell_ref, ?c)]) rest)
               = (visited @ [(cell_ref, ?c)]) @ ys" "list_all2 cached_only rest ys"
        by blast
      have "fst (evaluate_cells ops worksheet visited ((cell_ref, cell_data) # rest))
              = visited @ ((cell_ref, ?c) # ys)"
        using Some Inr ys(1) by simp
      moreover have "cached_only (cell_ref, cell_data) (cell_ref, ?c)"
        using Some by (simp add: cached_only_def formula_set_def)
      ultimately show ?thesis using ys(2) by (metis list_all2_Cons)
    qed
  qed
qed

text \<open>
  C10. The re-evaluation pass over a worksheet writes nothing but the cachedValue field of
  cells whose formula field is set: the sheet's id and name and the keys of its cells are
  the same before and after, every cell keeps its value and formula fields, and a cell
  without a formula is the same cell. This holds of the worksheet the pass leaves, also
  when an exception ends it.
\<close>

theorem reevaluation_frame:
  "sheet_id (fst (evaluate_worksheet_formulas ops w)) = sheet_id w
   \<and> sheet_name (fst (evaluate_worksheet_formulas ops w)) = sheet_name w
   \<and> map fst (cells (fst (evaluate_worksheet_formulas ops w))) = map fst (cells w)
   \<and> list_all2 cached_only (cells w) (cells (fst (evaluate_worksheet_formulas ops w)))"
proof -
  obtain cs err where e: "evaluate_cells ops w [] (cells w) = (cs, err)"
    by (cases "evaluate_cells ops w [] (cells w)") auto
  have r: "fst (evaluate_worksheet_formulas ops w) = w\<lparr>cells := cs\<rparr>"
    using e by (simp add: evaluate_worksheet_formulas_def)
  have fr: "list_all2 cached_only (cells w) cs"
    using evaluate_cells_frame[of ops w "[]" "cells w"] e by simp
  have "map fst cs = map fst (cells w)"
    using fr by (induction rule: list_all2_induct) (simp_all add: cached_only_def)
  then show ?thesis using r fr by simp
qed

theorem reevaluation_frame_witness:
  "\<not> formula_set \<lparr>cell_value = Some (PyStr ''5''), cell_formula = Some PyNone,
                     cachedValue = (None :: real result option)\<rparr>
   \<and> hd (cells (fst (evaluate_worksheet_formulas exact_ops
        \<lparr>sheet_id = ''sheet1'', sheet_name = ''Sheet1'',
         cells = [(''A1'', \<lparr>cell_value = Some (PyStr ''5''), cell_formula = Some PyNone,
                            cachedValue = None\<rparr>),
                  (''B1'', \<lparr>cell_value = Some PyNone, cell_formula = Some (PyStr ''=SUM(A1:A1)''),
                            cachedValue = None\<rparr>)]\<rparr>)))
       = (''A1'', \<lparr>cell_value = Some (PyStr ''5''), cell_formula = Some PyNone, cachedValue = None\<rparr>)
   \<and> map fst (cells (fst (evaluate_worksheet_formulas exact_ops
        \<lparr>sheet_id = ''sheet1'', sheet_name = ''Sheet1'',
         cells = [(''A1'', \<lparr>cell_value = Some (PyStr ''5''), cell_formula = Some PyNone,
                            cachedValue = None\<rparr>),
                  (''B1'', \<lparr>cell_value = Some PyNone, cell_formula = Some (PyStr ''=SUM(A1:A1)''),
                            cachedValue = None\<rparr>)]\<rparr>))) = [''A1'', ''B1'']"
proof -
  let ?a = "\<lparr>cell_value = Some (PyStr ''5''), cell_formula = Some PyNone,
             cachedValue = (None :: real result option)\<rparr>"
  let ?b = "\<lparr>cell_value = Some PyNone, cell_formula = Some (PyStr ''=SUM(A1:A1)''),
             cachedValue = (None :: real result option)\<rparr>"
  let ?w = "\<lparr>sheet_id = ''sheet1'', sheet_name = ''Sheet1'', cells = [(''A1'', ?a), (''B1'', ?b)]\<rparr>"
  have h: "\<not> formula_set ?a" by (simp add: formula_set_def get_truthy_def)
  note t = reevaluation_frame [of exact_ops ?w]
  have keys: "map fst (cells (fst (evaluate_worksheet_formulas exact_ops ?w))) = [''A1'', ''B1'']"
    using t [THEN conjunct2, THEN conjunct2, THEN conjunct1] by simp
  have "list_all2 cached_only [(''A1'', ?a), (''B1'', ?b)]
          (cells (fst (evaluate_worksheet_formulas exact_ops ?w)))"
    using t [THEN conjunct2, THEN conjunct2, THEN conjunct2] by simp
  then obtain y ys where y: "cells (fst (evaluate_worksheet_formulas exact_ops ?w)) = y # ys"
      "cached_only (''A1'', ?a) y"
    by (auto simp: list_all2_Cons1)
  have "y = (''A1'', ?a)"
    using y(2) h by (cases y) (simp add: cached_only_def)
  then show ?thesis using h keys y(1) by simp
qed

section \<open>Persistence\<close>

lemma save_failure_unchanged:
  "save_spreadsheet name fresh_uuid now False st = (False, st)"
  by (simp add: save_spreadsheet_def Let_def)

lemma load_read_failure_unchanged:
  "load_spreadsheet ops None st = (False, st)"
  by (simp add: load_spreadsheet_def)

text \<open>
  A record that the application itself writes: typing the formula \<^verbatim>\<open>=SUM(A1:B1:C1)\<close> into
  A1 of a new document stores it in the cell (and raises while re-evaluating), and a save
  then writes the document with that cell.
\<close>

lemma application_writes_record:
  "update_cell ops ''sheet1'' ''A1''
     \<lparr>upd_value = Some PyNone, upd_formula = Some (PyStr ''=SUM(A1:B1:C1)''), upd_cachedValue = None\<rparr>
     initial_state
   = (initial_state
        \<lparr>spreadsheet_data :=
           \<lparr>activeSheet = ''sheet1'',
            sheets = [\<lparr>sheet_id = ''sheet1'', sheet_name = ''Sheet1'',
                       cells = [(''A1'', \<lparr>cell_value = Some PyNone,
                                          cell_formula = Some (PyStr ''=SUM(A1:B1:C1)''),
                                          cachedValue = None\<rparr>)]\<rparr>]\<rparr>,
         is_modified := True\<rparr>,
      Some ValueError)"
  by (simp add: update_cell_def initial_state_def store_cell_def merge_cell_def
        evaluate_worksheet_formulas_def get_truthy_def two_colons_raise Let_def)

lemma load_of_record:
  "load_spreadsheet ops
     (Some \<lparr>info = fi,
            data = \<lparr>activeSheet = ''sheet1'',
                    sheets = [\<lparr>sheet_id = ''sheet1'', sheet_name = ''Sheet1'',
                               cells = [(''A1'', \<lparr>cell_value = Some PyNone,
                                                  cell_formula = Some (PyStr ''=SUM(A1:B1:C1)''),
                                                  cachedValue = None\<rparr>)]\<rparr>]\<rparr>\<rparr>)
     st
   = (False,
      st\<lparr>spreadsheet_data :=
           \<lparr>activeSheet = ''sheet1'',
            sheets = [\<lparr>sheet_id = ''sheet1'', sheet_name = ''Sheet1'',
                       cells = [(''A1'', \<lparr>cell_value = Some PyNone,
                                          cell_formula = Some (PyStr ''=SUM(A1:B1:C1)''),
                                          cachedValue = None\<rparr>)]\<rparr>]\<rparr>,
         current_file := Some fi, is_modified := False\<rparr>)"
  by (simp add: load_spreadsheet_def evaluate_worksheet_formulas_def get_truthy_def
        two_colons_raise Let_def)

text \<open>
  C9 does not hold of the code. A save whose write fails and a load whose read fails leave
  the state as it was (the two lemmas above). But a load also fails when the re-evaluation
  of the record's formulas raises, and that happens after the state was replaced: loading
  the record above reports failure, and whatever document was in memory, its sheets, its
  file information and its dirty flag are those of the record.
\<close>

theorem failed_load_replaces_state:
  "fst (load_spreadsheet ops
     (Some \<lparr>info = fi,
            data = \<lparr>activeSheet = ''sheet1'',
                    sheets = [\<lparr>sheet_id = ''sheet1'', sheet_name = ''Sheet1'',
                               cells = [(''A1'', \<lparr>cell_value = Some PyNone,
                                                  cell_formula = Some (PyStr ''=SUM(A1:B1:C1)''),
                                                  cachedValue = None\<rparr>)]\<rparr>]\<rparr>\<rparr>)
     st) = False
   \<and> spreadsheet_data (snd (load_spreadsheet ops
     (Some \<lparr>info = fi,
            data = \<lparr>activeSheet = ''sheet1'',
                    sheets = [\<lparr>sheet_id = ''sheet1'', sheet_name = ''Sheet1'',
                               cells = [(''A1'', \<lparr>cell_value = Some PyNone,
                                                  cell_formula = Some (PyStr ''=SUM(A1:B1:C1)''),
                                                  cachedValue = None\<rparr>)]\<rparr>]\<rparr>\<rparr>)
     st))
     = \<lparr>activeSheet = ''sheet1'',
        sheets = [\<lparr>sheet_id = ''sheet1'', sheet_name = ''Sheet1'',
                   cells = [(''A1'', \<lparr>cell_value = Some PyNone,
                                      cell_formula = Some (PyStr ''=SUM(A1:B1:C1)''),
                                      cachedValue = None\<rparr>)]\<rparr>]\<rparr>
   \<and> current_file (snd (load_spreadsheet ops
     (Some \<lparr>info = fi,
            data = \<lparr>activeSheet = ''sheet1'',
                    sheets = [\<lparr>sheet_id = ''sheet1'', sheet_name = ''Sheet1'',
                               cells = [(''A1'', \<lparr>cell_value = Some PyNone,
                                                  cell_formula = Some (PyStr ''=SUM(A1:B1:C1)''),
                                                  cachedValue = None\<rparr>)]\<rparr>]\<rparr>\<rparr>)
     st)) = Some fi
   \<and> is_modified (snd (load_spreadsheet ops
     (Some \<lparr>info = fi,
            data = \<lparr>activeSheet = ''sheet1'',
                    sheets = [\<lparr>sheet_id = ''sheet1'', sheet_name = ''Sheet1'',
                               cells = [(''A1'', \<lparr>cell_value = Some PyNone,
                                                  cell_formula = Some (PyStr ''=SUM(A1:B1:C1)''),
                                                  cachedValue = None\<rparr>)]\<rparr>]\<rparr>\<rparr>)
     st)) = False"
  unfolding load_of_record by simp

end
